theory Spec2Isabelle
  imports Main "HOL-Library.Word"
begin

section \<open>Go values used by the convert handler\<close>

text \<open>
  The server is built for 64-bit targets, where Go's \<open>uint\<close> and \<open>int\<close> have 64 bits. An
  \<open>int\<close> is kept as its 64-bit word and read as a signed number with \<open>sint\<close>. A Go string
  is a sequence of bytes, here a \<open>string\<close>.
\<close>

type_synonym byte = "8 word"
type_synonym go_uint = "64 word"
type_synonym go_int = "64 word"

text \<open>
  A \<open>float64\<close> is kept as its IEEE-754 bit pattern. The handler never computes with the
  density: it stores what \<open>strconv.ParseFloat\<close> returned and hands it to the engine. The two
  literals of the source are \<open>300.0\<close> (line 197) and \<open>-90.0\<close> (lines 334 and 350).
\<close>

datatype float64 = Float64 "64 word"

definition float_300 :: float64 where
  "float_300 = Float64 0x4072C00000000000"

definition float_neg90 :: float64 where
  "float_neg90 = Float64 0xC056800000000000"

fun signbit :: "float64 \<Rightarrow> bool" where
  "signbit (Float64 w) = bit w 63"

section \<open>HTTP request and response\<close>

text \<open>
  \<open>url.Values\<close> is a Go map from a key to the list of its values; \<open>Get\<close> returns the first
  value of the key and the empty string when the key has none.
\<close>

type_synonym url_values = "string \<rightharpoonup> string list"

definition Get :: "url_values \<Rightarrow> string \<Rightarrow> string" where
  "Get v key = (case v key of None \<Rightarrow> [] | Some [] \<Rightarrow> [] | Some (x # _) \<Rightarrow> x)"

text \<open>The Zip archive is kept as its ordered entries, a name and the bytes written to it.\<close>

type_synonym archive = "(string \<times> byte list) list"

datatype payload = JSON "(string \<times> string) list" | Data archive

record response =
  status :: nat
  payload :: payload

record request =
  reqQuery :: url_values
  reqBody :: "byte list option"

text \<open>\<open>render.Status(r, code)\<close> followed by \<open>render.JSON(w, r, map[string]any{"error": msg})\<close>.\<close>

definition errorResponse :: "nat \<Rightarrow> string \<Rightarrow> response" where
  "errorResponse code msg = \<lparr>status = code, payload = JSON [(''error'', msg)]\<rparr>"

definition StatusOK :: nat where "StatusOK = 200"
definition StatusBadRequest :: nat where "StatusBadRequest = 400"
definition StatusInternalServerError :: nat where "StatusInternalServerError = 500"

section \<open>The collaborators of the handler\<close>

text \<open>
  The handler drives code that is not part of the repository: \<open>strconv\<close>, \<open>strings\<close>, the
  ImageMagick binding and \<open>archive/zip\<close>. Their results are parameters of the model. A wand
  is a value of the type \<open>'w\<close>; a call that returns an error in Go returns \<open>None\<close> (or
  \<open>False\<close>) here. \<open>readImageBlob\<close> decodes the body at the resolution set before and gives
  the images of the document wand in order.
\<close>

record 'w env =
  parseFloat :: "string \<Rightarrow> float64 option"
  parseUint :: "string \<Rightarrow> go_uint option"
  unicodeToUpper :: "string \<Rightarrow> string"
  setResolution :: "float64 \<Rightarrow> float64 \<Rightarrow> bool"
  readImageBlob :: "float64 \<Rightarrow> byte list \<Rightarrow> 'w list option"
  mergeImageLayers :: "'w \<Rightarrow> 'w"
  setImageCompressionQuality :: "'w \<Rightarrow> go_uint \<Rightarrow> 'w option"
  setImageFormat :: "'w \<Rightarrow> string \<Rightarrow> 'w option"
  getImageWidth :: "'w \<Rightarrow> go_uint"
  getImageHeight :: "'w \<Rightarrow> go_uint"
  rotateImage :: "'w \<Rightarrow> float64 \<Rightarrow> 'w option"
  getImageBlob :: "'w \<Rightarrow> byte list option"
  zipCreate :: "archive \<Rightarrow> string \<Rightarrow> bool"
  zipWrite :: "archive \<Rightarrow> byte list \<Rightarrow> bool"
  zipClose :: "archive \<Rightarrow> bool"

text \<open>
  \<open>strings.ToUpper\<close>: a string of ASCII bytes only has its letters \<open>a\<close> to \<open>z\<close> moved to
  upper case byte by byte; any other string goes through \<open>strings.Map(unicode.ToUpper, s)\<close>,
  which is the collaborator \<open>unicodeToUpper\<close>.
\<close>

definition isASCII :: "char \<Rightarrow> bool" where
  "isASCII c = (of_char c < (128::nat))"

definition upperASCII :: "char \<Rightarrow> char" where
  "upperASCII c =
     (if (97::nat) \<le> of_char c \<and> of_char c \<le> (122::nat)
      then char_of (of_char c - (32::nat)) else c)"

definition ToUpper :: "'w env \<Rightarrow> string \<Rightarrow> string" where
  "ToUpper env s = (if list_all isASCII s then map upperASCII s else unicodeToUpper env s)"

section \<open>Calls, handles and the state of one request\<close>

datatype handle = Document | PageHandle go_int | FlatHandle go_int

datatype call =
    ReadAll
  | NewMagickWand
  | SetResolution float64 float64
  | ReadImageBlob "byte list"
  | ResetIterator
  | NextImage bool
  | GetImage go_int
  | MergeImageLayers go_int
  | SetImageCompressionQuality go_int go_uint
  | SetImageFormat go_int string
  | GetImageWidth go_int
  | GetImageHeight go_int
  | NewPixelWand
  | RotateImage go_int float64
  | GetImageBlob go_int
  | ZipCreate string
  | ZipWrite string
  | ZipClose
  | Destroy handle

text \<open>
  An event is a call and whether it returned without an error. \<open>deferred\<close> is the stack of
  the \<open>defer\<close> statements executed so far, the latest first; \<open>entries\<close> is the Zip writer.
\<close>

type_synonym event = "call \<times> bool"

record state =
  trace :: "event list"
  deferred :: "handle list"
  entries :: archive

definition initial :: state where
  "initial = \<lparr>trace = [], deferred = [], entries = []\<rparr>"

definition emit :: "call \<Rightarrow> bool \<Rightarrow> state \<Rightarrow> state" where
  "emit c ok st = st\<lparr>trace := trace st @ [(c, ok)]\<rparr>"

definition deferCall :: "handle \<Rightarrow> state \<Rightarrow> state" where
  "deferCall h st = st\<lparr>deferred := h # deferred st\<rparr>"

section \<open>Parameters of the conversion (main.go, lines 177 to 254)\<close>

definition formatExtensionMap :: "string \<rightharpoonup> string" where
  "formatExtensionMap = [''JPEG'' \<mapsto> ''jpg'', ''PNG'' \<mapsto> ''png'', ''TIFF'' \<mapsto> ''tiff'']"

text \<open>Indexing a Go map with a key it does not hold gives the zero value, the empty string.\<close>

definition extensionOf :: "string \<Rightarrow> string" where
  "extensionOf f = (case formatExtensionMap f of None \<Rightarrow> [] | Some e \<Rightarrow> e)"

definition layoutTypeLandscape :: string where "layoutTypeLandscape = ''LANDSCAPE''"
definition layoutTypePortrait :: string where "layoutTypePortrait = ''PORTRAIT''"
definition layoutTypeKeep :: string where "layoutTypeKeep = ''KEEP''"

record config =
  density :: float64
  quality :: go_uint
  format :: string
  layout :: string

definition parseDensity :: "'w env \<Rightarrow> url_values \<Rightarrow> response + float64" where
  "parseDensity env q =
     (let v = Get q ''density'' in
      if v \<noteq> [] then
        (case parseFloat env v of
           None \<Rightarrow> Inl (errorResponse StatusBadRequest ''invalid density'')
         | Some d \<Rightarrow> Inr d)
      else Inr float_300)"

definition parseQuality :: "'w env \<Rightarrow> url_values \<Rightarrow> response + go_uint" where
  "parseQuality env q =
     (let v = Get q ''quality'' in
      if v \<noteq> [] then
        (case parseUint env v of
           None \<Rightarrow> Inl (errorResponse StatusBadRequest ''invalid compression quality'')
         | Some n \<Rightarrow> Inr n)
      else Inr 85)"

definition parseFormat :: "'w env \<Rightarrow> url_values \<Rightarrow> response + string" where
  "parseFormat env q =
     (let v = Get q ''format'' in
      if v \<noteq> [] then
        (let u = ToUpper env v in
         if formatExtensionMap u = None
         then Inl (errorResponse StatusBadRequest ''invalid output format'')
         else Inr u)
      else Inr ''JPEG'')"

definition parseLayout :: "'w env \<Rightarrow> url_values \<Rightarrow> response + string" where
  "parseLayout env q =
     (let v = Get q ''layout'' in
      if v \<noteq> [] then
        (let u = ToUpper env v in
         if u \<noteq> layoutTypeLandscape \<and> u \<noteq> layoutTypePortrait \<and> u \<noteq> layoutTypeKeep
         then Inl (errorResponse StatusBadRequest ''invalid output layout'')
         else Inr u)
      else Inr layoutTypeKeep)"

definition resolveParams :: "'w env \<Rightarrow> url_values \<Rightarrow> response + config" where
  "resolveParams env q =
     (case parseDensity env q of
        Inl r \<Rightarrow> Inl r
      | Inr d \<Rightarrow>
         (case parseQuality env q of
            Inl r \<Rightarrow> Inl r
          | Inr n \<Rightarrow>
             (case parseFormat env q of
                Inl r \<Rightarrow> Inl r
              | Inr f \<Rightarrow>
                 (case parseLayout env q of
                    Inl r \<Rightarrow> Inl r
                  | Inr l \<Rightarrow> Inr \<lparr>density = d, quality = n, format = f, layout = l\<rparr>))))"

section \<open>Archive entry names (main.go, line 373)\<close>

text \<open>
  \<open>fmt.Sprintf("%04d.%s", page, ext)\<close> with \<open>page\<close> a Go \<open>int\<close>: the decimal digits, padded
  with zeros to four characters; a negative number has its sign first and three digits at
  least.
\<close>

definition digitChar :: "nat \<Rightarrow> char" where
  "digitChar d = char_of (48 + d)"

function decimal :: "nat \<Rightarrow> string" where
  "decimal n = (if n < 10 then [digitChar n] else decimal (n div 10) @ [digitChar (n mod 10)])"
  by pat_completeness auto
termination
  by (relation "measure id") auto

declare decimal.simps [simp del]

definition padZero :: "nat \<Rightarrow> string \<Rightarrow> string" where
  "padZero k s = replicate (k - length s) (CHR ''0'') @ s"

definition sprintf_04d :: "int \<Rightarrow> string" where
  "sprintf_04d i =
     (if i < 0 then CHR ''-'' # padZero 3 (decimal (nat (- i))) else padZero 4 (decimal (nat i)))"

definition entryName :: "go_int \<Rightarrow> string \<Rightarrow> string" where
  "entryName page ext = sprintf_04d (sint page) @ ''.'' @ ext"

section \<open>The page loop (main.go, lines 296 to 389)\<close>

text \<open>Lines 334 to 340 and 350 to 356: the rotation of the flattened wand.\<close>

definition rotate :: "'w env \<Rightarrow> go_int \<Rightarrow> 'w \<Rightarrow> state \<Rightarrow> (response + 'w) \<times> state" where
  "rotate env page mwm st =
     (let st1 = emit NewPixelWand True st in
      case rotateImage env mwm float_neg90 of
        None \<Rightarrow> (Inl (errorResponse StatusInternalServerError ''failed to rotate image''),
                 emit (RotateImage page float_neg90) False st1)
      | Some r \<Rightarrow> (Inr r, emit (RotateImage page float_neg90) True st1))"

text \<open>
  Lines 326 to 361: the \<open>switch\<close> on the layout. It has no default case, so any other
  value falls through it like \<open>KEEP\<close>.
\<close>

definition forceLayout ::
  "'w env \<Rightarrow> string \<Rightarrow> go_int \<Rightarrow> 'w \<Rightarrow> state \<Rightarrow> (response + 'w) \<times> state" where
  "forceLayout env l page mwm st =
     (if l = layoutTypeLandscape then
        (let width = getImageWidth env mwm;
             height = getImageHeight env mwm;
             st1 = emit (GetImageHeight page) True (emit (GetImageWidth page) True st) in
         if width < height then rotate env page mwm st1 else (Inr mwm, st1))
      else if l = layoutTypePortrait then
        (let width = getImageWidth env mwm;
             height = getImageHeight env mwm;
             st1 = emit (GetImageHeight page) True (emit (GetImageWidth page) True st) in
         if height < width then rotate env page mwm st1 else (Inr mwm, st1))
      else (Inr mwm, st))"

text \<open>Lines 372 to 388: the new entry of the archive and the bytes written to it.\<close>

definition zipCreateEntry :: "string \<Rightarrow> state \<Rightarrow> state" where
  "zipCreateEntry name st = st\<lparr>entries := entries st @ [(name, [])]\<rparr>"

definition zipWriteEntry :: "byte list \<Rightarrow> state \<Rightarrow> state" where
  "zipWriteEntry out st =
     st\<lparr>entries := (case rev (entries st) of
                       [] \<Rightarrow> []
                     | (name, old) # es \<Rightarrow> rev es @ [(name, old @ out)])\<rparr>"

definition writePage ::
  "'w env \<Rightarrow> config \<Rightarrow> go_int \<Rightarrow> byte list \<Rightarrow> state \<Rightarrow> response option \<times> state" where
  "writePage env cfg page out st =
     (let name = entryName page (extensionOf (format cfg)) in
      if \<not> zipCreate env (entries st) name then
        (Some (errorResponse StatusInternalServerError ''failed to create new Zip archive entry''),
         emit (ZipCreate name) False st)
      else
        (let st1 = zipCreateEntry name (emit (ZipCreate name) True st) in
         if \<not> zipWrite env (entries st1) out then
           (Some (errorResponse StatusInternalServerError ''failed to write image into Zip archive''),
            emit (ZipWrite name) False st1)
         else (None, zipWriteEntry out (emit (ZipWrite name) True st1))))"

text \<open>
  Lines 299 to 388: the body of the loop for the image \<open>img\<close> at index \<open>page\<close>. The result
  is \<open>Some r\<close> when the handler returns the response \<open>r\<close> from inside the loop.
\<close>

definition convertPage ::
  "'w env \<Rightarrow> config \<Rightarrow> go_int \<Rightarrow> 'w \<Rightarrow> state \<Rightarrow> response option \<times> state" where
  "convertPage env cfg page img st =
     (let st1 = deferCall (PageHandle page) (emit (GetImage page) True st);
          mwm = mergeImageLayers env img;
          st2 = deferCall (FlatHandle page) (emit (MergeImageLayers page) True st1) in
      case setImageCompressionQuality env mwm (quality cfg) of
        None \<Rightarrow>
          (Some (errorResponse StatusInternalServerError ''failed to set compression quality''),
           emit (SetImageCompressionQuality page (quality cfg)) False st2)
      | Some mwm1 \<Rightarrow>
         (let st3 = emit (SetImageCompressionQuality page (quality cfg)) True st2 in
          case setImageFormat env mwm1 (format cfg) of
            None \<Rightarrow>
              (Some (errorResponse StatusInternalServerError ''failed to set output format''),
               emit (SetImageFormat page (format cfg)) False st3)
          | Some mwm2 \<Rightarrow>
             (let st4 = emit (SetImageFormat page (format cfg)) True st3 in
              case forceLayout env (layout cfg) page mwm2 st4 of
                (Inl r, st5) \<Rightarrow> (Some r, st5)
              | (Inr mwm3, st5) \<Rightarrow>
                 (case getImageBlob env mwm3 of
                    None \<Rightarrow>
                      (Some (errorResponse StatusInternalServerError ''failed to set output format''),
                       emit (GetImageBlob page) False st5)
                  | Some out \<Rightarrow> writePage env cfg page out (emit (GetImageBlob page) True st5)))))"

text \<open>
  Line 298: \<open>for page := 0; mw.NextImage(); page++\<close> over the images that are left. The
  counter is a 64-bit signed word, so \<open>page + 1\<close> wraps as the Go \<open>int\<close> does.
\<close>

fun pagesLoop ::
  "'w env \<Rightarrow> config \<Rightarrow> go_int \<Rightarrow> 'w list \<Rightarrow> state \<Rightarrow> response option \<times> state" where
  "pagesLoop env cfg page [] st = (None, emit (NextImage False) True st)"
| "pagesLoop env cfg page (img # imgs) st =
     (case convertPage env cfg page img (emit (NextImage True) True st) of
        (Some r, st1) \<Rightarrow> (Some r, st1)
      | (None, st1) \<Rightarrow> pagesLoop env cfg (page + 1) imgs st1)"

section \<open>The handler (main.go, lines 194 to 404)\<close>

text \<open>Lines 256 to 402, up to the \<open>return\<close>: what runs once the parameters are parsed.\<close>

definition pipeline :: "'w env \<Rightarrow> config \<Rightarrow> byte list option \<Rightarrow> response \<times> state" where
  "pipeline env cfg body =
     (case body of
        None \<Rightarrow> (errorResponse StatusInternalServerError ''failed to read request body'',
                 emit ReadAll False initial)
      | Some inp \<Rightarrow>
         (let st1 = deferCall Document (emit NewMagickWand True (emit ReadAll True initial)) in
          if \<not> setResolution env (density cfg) (density cfg) then
            (errorResponse StatusInternalServerError ''failed to set density'',
             emit (SetResolution (density cfg) (density cfg)) False st1)
          else
            (let st2 = emit (SetResolution (density cfg) (density cfg)) True st1 in
             case readImageBlob env (density cfg) inp of
               None \<Rightarrow> (errorResponse StatusInternalServerError ''failed to read image'',
                        emit (ReadImageBlob inp) False st2)
             | Some imgs \<Rightarrow>
                (let st3 = emit ResetIterator True (emit (ReadImageBlob inp) True st2) in
                 case pagesLoop env cfg 0 imgs st3 of
                   (Some r, st4) \<Rightarrow> (r, st4)
                 | (None, st4) \<Rightarrow>
                    if \<not> zipClose env (entries st4) then
                      (errorResponse StatusInternalServerError ''failed to close Zip archive'',
                       emit ZipClose False st4)
                    else (\<lparr>status = StatusOK, payload = Data (entries st4)\<rparr>,
                          emit ZipClose True st4)))))"

text \<open>
  A Go \<open>defer\<close> runs when the surrounding function returns, the latest first, on every
  path out of the function. \<open>runDeferred\<close> is that return: it appends the \<open>Destroy\<close> calls
  of the stack to the trace.
\<close>

definition runDeferred :: "state \<Rightarrow> event list" where
  "runDeferred st = trace st @ map (\<lambda>h. (Destroy h, True)) (deferred st)"

definition convertHandler :: "'w env \<Rightarrow> request \<Rightarrow> response \<times> event list" where
  "convertHandler env req =
     (case resolveParams env (reqQuery req) of
        Inl r \<Rightarrow> (r, [])
      | Inr cfg \<Rightarrow> (case pipeline env cfg (reqBody req) of (r, st) \<Rightarrow> (r, runDeferred st)))"

section \<open>A small engine to run the model on\<close>

text \<open>
  The wand of this engine is a pair of a width and a height. A document is a sequence of
  byte pairs, one page each; flattening keeps the page, a rotation exchanges the two
  dimensions, and every call succeeds. \<open>parseFloat\<close> knows the literals \<open>300\<close> and \<open>72\<close>
  and rejects the rest; \<open>parseUint\<close> reads decimal digits into 64 bits.
\<close>

fun decodePairs :: "byte list \<Rightarrow> (go_uint \<times> go_uint) list" where
  "decodePairs (a # b # r) = (ucast a, ucast b) # decodePairs r"
| "decodePairs _ = []"

fun digitsValue :: "nat \<Rightarrow> string \<Rightarrow> nat option" where
  "digitsValue acc [] = Some acc"
| "digitsValue acc (c # cs) =
     (if (48::nat) \<le> of_char c \<and> of_char c \<le> (57::nat)
      then digitsValue (10 * acc + (of_char c - 48)) cs else None)"

definition decimalUint :: "string \<Rightarrow> go_uint option" where
  "decimalUint s =
     (if s = [] then None
      else case digitsValue 0 s of
             None \<Rightarrow> None
           | Some n \<Rightarrow> if n < 2 ^ 64 then Some (of_nat n) else None)"

definition sampleFloat :: "string \<Rightarrow> float64 option" where
  "sampleFloat s =
     (if s = ''300'' then Some float_300
      else if s = ''72'' then Some (Float64 0x4052000000000000) else None)"

definition fakeEnv :: "(go_uint \<times> go_uint) env" where
  "fakeEnv = \<lparr>
     parseFloat = sampleFloat,
     parseUint = decimalUint,
     unicodeToUpper = (\<lambda>s. s),
     setResolution = (\<lambda>x y. True),
     readImageBlob = (\<lambda>d b. Some (decodePairs b)),
     mergeImageLayers = (\<lambda>w. w),
     setImageCompressionQuality = (\<lambda>w q. Some w),
     setImageFormat = (\<lambda>w f. Some w),
     getImageWidth = fst,
     getImageHeight = snd,
     rotateImage = (\<lambda>w a. Some (snd w, fst w)),
     getImageBlob = (\<lambda>w. Some [ucast (fst w), ucast (snd w)]),
     zipCreate = (\<lambda>a n. True),
     zipWrite = (\<lambda>a b. True),
     zipClose = (\<lambda>a. True)\<rparr>"

text \<open>
  The same engine with the one case of \<open>strings.ToUpper\<close> outside ASCII that matters for
  the format names: the UTF-8 bytes of \<open>t\<close>, U+0131 (the dotless i, bytes C4 B1), \<open>f\<close>,
  \<open>f\<close>. Go's \<open>unicode.ToUpper\<close> maps U+0131 to U+0049, the letter \<open>I\<close>, so
  \<open>strings.ToUpper\<close> of this string is \<open>TIFF\<close>.
\<close>

definition dotlessTiff :: string where
  "dotlessTiff = [CHR ''t'', CHR 0xC4, CHR 0xB1, CHR ''f'', CHR ''f'']"

definition goEnv :: "(go_uint \<times> go_uint) env" where
  "goEnv = fakeEnv\<lparr>unicodeToUpper := (\<lambda>s. if s = dotlessTiff then ''TIFF'' else s)\<rparr>"

section \<open>Predicates on traces and states\<close>

fun acquires :: "event \<Rightarrow> handle list" where
  "acquires (NewMagickWand, ok) = [Document]"
| "acquires (GetImage p, ok) = [PageHandle p]"
| "acquires (MergeImageLayers p, ok) = [FlatHandle p]"
| "acquires e = []"

definition acquired :: "event list \<Rightarrow> handle list" where
  "acquired tr = concat (map acquires tr)"

fun isDestroy :: "event \<Rightarrow> bool" where
  "isDestroy (Destroy h, ok) = True"
| "isDestroy e = False"

definition working :: "event list \<Rightarrow> bool" where
  "working tr = list_all (\<lambda>e. \<not> isDestroy e) tr"

text \<open>Invariant: the deferred stack mirrors the handles acquired so far.\<close>

definition balanced :: "state \<Rightarrow> bool" where
  "balanced st = (working (trace st) \<and> deferred st = rev (acquired (trace st)))"

fun failureMessage :: "call \<Rightarrow> string" where
  "failureMessage ReadAll = ''failed to read request body''"
| "failureMessage (SetResolution x y) = ''failed to set density''"
| "failureMessage (ReadImageBlob b) = ''failed to read image''"
| "failureMessage (SetImageCompressionQuality p n) = ''failed to set compression quality''"
| "failureMessage (SetImageFormat p f) = ''failed to set output format''"
| "failureMessage (RotateImage p a) = ''failed to rotate image''"
| "failureMessage (GetImageBlob p) = ''failed to set output format''"
| "failureMessage (ZipCreate n) = ''failed to create new Zip archive entry''"
| "failureMessage (ZipWrite n) = ''failed to write image into Zip archive''"
| "failureMessage ZipClose = ''failed to close Zip archive''"
| "failureMessage c = []"

definition allOk :: "state \<Rightarrow> bool" where
  "allOk st = list_all snd (trace st)"

definition failedAt :: "state \<Rightarrow> call \<Rightarrow> bool" where
  "failedAt st c = (\<exists>pre. trace st = pre @ [(c, False)] \<and> list_all snd pre)"

definition stops :: "response \<Rightarrow> state \<Rightarrow> bool" where
  "stops r st =
     (\<exists>c. failedAt st c \<and> r = errorResponse StatusInternalServerError (failureMessage c))"

text \<open>
  What the engine is expected to do on a rotation by \<open>-90\<close> degrees: the rotated wand has
  the two dimensions of the original exchanged.
\<close>

definition rotationContract :: "'w env \<Rightarrow> bool" where
  "rotationContract env =
     (\<forall>w r. rotateImage env w float_neg90 = Some r \<longrightarrow>
        getImageWidth env r = getImageHeight env w \<and> getImageHeight env r = getImageWidth env w)"

text \<open>
  Release scoped to the page: whenever the loop asks for the next image, no handle of a
  page (extracted or flattened) acquired so far is still to be destroyed. \<open>live\<close> holds the
  page handles acquired and not yet destroyed.
\<close>

fun scopedRelease :: "handle list \<Rightarrow> event list \<Rightarrow> bool" where
  "scopedRelease live [] = True"
| "scopedRelease live ((NextImage b, ok) # es) = (live = [] \<and> scopedRelease live es)"
| "scopedRelease live ((GetImage p, ok) # es) = scopedRelease (PageHandle p # live) es"
| "scopedRelease live ((MergeImageLayers p, ok) # es) = scopedRelease (FlatHandle p # live) es"
| "scopedRelease live ((Destroy h, ok) # es) = scopedRelease (removeAll h live) es"
| "scopedRelease live (e # es) = scopedRelease live es"

text \<open>A request whose query holds a value that one of the four checks rejects.\<close>

definition invalidParameters :: "'w env \<Rightarrow> url_values \<Rightarrow> bool" where
  "invalidParameters env q =
     (Get q ''density'' \<noteq> [] \<and> parseFloat env (Get q ''density'') = None
      \<or> Get q ''quality'' \<noteq> [] \<and> parseUint env (Get q ''quality'') = None
      \<or> Get q ''format'' \<noteq> [] \<and> formatExtensionMap (ToUpper env (Get q ''format'')) = None
      \<or> Get q ''layout'' \<noteq> [] \<and>
         ToUpper env (Get q ''layout'') \<noteq> layoutTypeLandscape \<and>
         ToUpper env (Get q ''layout'') \<noteq> layoutTypePortrait \<and>
         ToUpper env (Get q ''layout'') \<noteq> layoutTypeKeep)"

text \<open>
  Two strings are equal up to the case of their letters (\<open>equalFoldASCII\<close>) when they are
  equal once the letters \<open>A\<close> to \<open>Z\<close> are moved to lower case. No character outside ASCII
  folds to a letter of \<open>jpeg\<close>, \<open>png\<close> or \<open>tiff\<close>, so for these three words this is
  equality up to case of any string of bytes.
\<close>

definition lowerASCII :: "char \<Rightarrow> char" where
  "lowerASCII c =
     (if (65::nat) \<le> of_char c \<and> of_char c \<le> (90::nat)
      then char_of (of_char c + (32::nat)) else c)"

definition equalFoldASCII :: "string \<Rightarrow> string \<Rightarrow> bool" where
  "equalFoldASCII a b = (map lowerASCII a = map lowerASCII b)"

definition lowerLetter :: "char \<Rightarrow> bool" where
  "lowerLetter c = ((97::nat) \<le> of_char c \<and> of_char c \<le> (122::nat))"

definition upperLetter :: "char \<Rightarrow> bool" where
  "upperLetter c = ((65::nat) \<le> of_char c \<and> of_char c \<le> (90::nat))"

text \<open>
  The name of page \<open>i\<close> as the specification writes it, for \<open>i\<close> below 10000: the four
  decimal digits of \<open>i\<close>, the thousands first. \<open>decimalValue\<close> reads a string of digits as a
  number, and \<open>lexLess\<close> is the order of strings by their bytes, the order in which a
  listing of the archive sorts its names.
\<close>

definition fourDigits :: "nat \<Rightarrow> string" where
  "fourDigits i =
     [char_of (48 + i div 1000 mod 10), char_of (48 + i div 100 mod 10),
      char_of (48 + i div 10 mod 10), char_of (48 + i mod 10)]"

definition isDigit :: "char \<Rightarrow> bool" where
  "isDigit c = ((48::nat) \<le> of_char c \<and> of_char c \<le> (57::nat))"

definition decimalValue :: "string \<Rightarrow> nat" where
  "decimalValue s = foldl (\<lambda>acc c. 10 * acc + (of_char c - 48)) 0 s"

fun lexLess :: "string \<Rightarrow> string \<Rightarrow> bool" where
  "lexLess [] [] = False"
| "lexLess [] (y # ys) = True"
| "lexLess (x # xs) [] = False"
| "lexLess (x # xs) (y # ys) =
     ((of_char x :: nat) < of_char y \<or> x = y \<and> lexLess xs ys)"

text \<open>
  The bytes of one page, as the specification lists the steps: flatten the image, set the
  quality, set the format, bring the page into the layout asked for, serialize. \<open>None\<close>
  when a step fails.
\<close>

definition orient :: "'w env \<Rightarrow> string \<Rightarrow> 'w \<Rightarrow> 'w option" where
  "orient env l m =
     (if l = ''LANDSCAPE'' \<and> getImageWidth env m < getImageHeight env m
         \<or> l = ''PORTRAIT'' \<and> getImageHeight env m < getImageWidth env m
      then rotateImage env m float_neg90 else Some m)"

definition pageBytes :: "'w env \<Rightarrow> config \<Rightarrow> 'w \<Rightarrow> byte list option" where
  "pageBytes env cfg img =
     Option.bind (setImageCompressionQuality env (mergeImageLayers env img) (quality cfg))
       (\<lambda>m1. Option.bind (setImageFormat env m1 (format cfg))
         (\<lambda>m2. Option.bind (orient env (layout cfg) m2) (getImageBlob env)))"

section \<open>Facts about the state and the loop\<close>

subsection \<open>State updates\<close>

lemma trace_emit [simp]: "trace (emit c ok st) = trace st @ [(c, ok)]"
  by (simp add: emit_def)
lemma deferred_emit [simp]: "deferred (emit c ok st) = deferred st"
  by (simp add: emit_def)
lemma entries_emit [simp]: "entries (emit c ok st) = entries st"
  by (simp add: emit_def)
lemma trace_deferCall [simp]: "trace (deferCall h st) = trace st"
  by (simp add: deferCall_def)
lemma deferred_deferCall [simp]: "deferred (deferCall h st) = h # deferred st"
  by (simp add: deferCall_def)
lemma entries_deferCall [simp]: "entries (deferCall h st) = entries st"
  by (simp add: deferCall_def)
lemma trace_zipCreateEntry [simp]: "trace (zipCreateEntry n st) = trace st"
  by (simp add: zipCreateEntry_def)
lemma deferred_zipCreateEntry [simp]: "deferred (zipCreateEntry n st) = deferred st"
  by (simp add: zipCreateEntry_def)
lemma entries_zipCreateEntry [simp]: "entries (zipCreateEntry n st) = entries st @ [(n, [])]"
  by (simp add: zipCreateEntry_def)
lemma trace_zipWriteEntry [simp]: "trace (zipWriteEntry out st) = trace st"
  by (simp add: zipWriteEntry_def)
lemma deferred_zipWriteEntry [simp]: "deferred (zipWriteEntry out st) = deferred st"
  by (simp add: zipWriteEntry_def)
lemma entries_zipWriteEntry [simp]:
  "entries st = es @ [(n, old)] \<Longrightarrow> entries (zipWriteEntry out st) = es @ [(n, old @ out)]"
  by (simp add: zipWriteEntry_def)

subsection \<open>Deferred releases\<close>

text \<open>
  Every step of the handler keeps the state \<open>balanced\<close>: no \<open>Destroy\<close> has run yet, and the
  deferred stack is the list of the handles acquired so far, the latest first.
\<close>

lemma acquired_append [simp]: "acquired (xs @ ys) = acquired xs @ acquired ys"
  by (simp add: acquired_def)
lemma acquired_Nil [simp]: "acquired [] = []"
  by (simp add: acquired_def)
lemma acquired_Cons [simp]: "acquired (e # es) = acquires e @ acquired es"
  by (simp add: acquired_def)
lemma working_append [simp]: "working (xs @ ys) = (working xs \<and> working ys)"
  by (simp add: working_def)
lemma working_Nil [simp]: "working []"
  by (simp add: working_def)
lemma working_Cons [simp]: "working (e # es) = (\<not> isDestroy e \<and> working es)"
  by (simp add: working_def)

lemma balanced_emit:
  "balanced st \<Longrightarrow> acquires (c, ok) = [] \<Longrightarrow> \<not> isDestroy (c, ok) \<Longrightarrow> balanced (emit c ok st)"
  by (simp add: balanced_def)

lemma balanced_acquire:
  "balanced st \<Longrightarrow> acquires (c, ok) = [h] \<Longrightarrow> \<not> isDestroy (c, ok) \<Longrightarrow>
   balanced (deferCall h (emit c ok st))"
  by (simp add: balanced_def)

lemma balanced_forceLayout:
  "balanced st \<Longrightarrow> balanced (snd (forceLayout env l p m st))"
  by (simp add: forceLayout_def rotate_def Let_def balanced_def split: option.splits)

lemma balanced_writePage:
  "balanced st \<Longrightarrow> balanced (snd (writePage env cfg p out st))"
  by (simp add: writePage_def Let_def balanced_def)

lemma balanced_convertPage:
  "balanced st \<Longrightarrow> balanced (snd (convertPage env cfg p img st))"
  by (auto simp: convertPage_def Let_def case_prod_beta split: option.splits sum.splits
      intro!: balanced_emit balanced_acquire balanced_forceLayout balanced_writePage)

lemma balanced_pagesLoop:
  "balanced st \<Longrightarrow> balanced (snd (pagesLoop env cfg p imgs st))"
proof (induction imgs arbitrary: p st)
  case Nil
  then show ?case by (simp add: balanced_emit)
next
  case (Cons img imgs)
  have "balanced (snd (convertPage env cfg p img (emit (NextImage True) True st)))"
    using Cons.prems by (intro balanced_convertPage balanced_emit) simp_all
  then show ?case
    by (auto simp: case_prod_beta split: option.splits intro: Cons.IH)
qed

lemma balanced_pipeline:
  "balanced (snd (pipeline env cfg body))"
proof -
  have "balanced initial"
    by (simp add: balanced_def initial_def)
  then show ?thesis
    by (auto simp: pipeline_def Let_def case_prod_beta split: option.splits
        intro!: balanced_emit balanced_acquire balanced_pagesLoop)
qed

subsection \<open>The first call that fails ends the request\<close>

text \<open>
  As long as the handler goes on, no call in the trace has failed; when it returns an
  error, the last call of the trace is the one that failed and the answer is the 500 response
  with the message of that call.
\<close>

lemma allOk_emit [simp]: "allOk (emit c ok st) = (ok \<and> allOk st)"
  by (auto simp: allOk_def)
lemma allOk_deferCall [simp]: "allOk (deferCall h st) = allOk st"
  by (simp add: allOk_def)
lemma allOk_zipCreateEntry [simp]: "allOk (zipCreateEntry n st) = allOk st"
  by (simp add: allOk_def)
lemma allOk_zipWriteEntry [simp]: "allOk (zipWriteEntry out st) = allOk st"
  by (simp add: allOk_def)

lemma failedAt_emit [simp]: "failedAt (emit c ok st) c' = (\<not> ok \<and> c = c' \<and> allOk st)"
  by (auto simp: failedAt_def allOk_def)

lemma stops_emit [simp]:
  "stops r (emit c ok st) =
     (\<not> ok \<and> allOk st \<and> r = errorResponse StatusInternalServerError (failureMessage c))"
  by (auto simp: stops_def)

lemma forceLayout_continues:
  "allOk st \<Longrightarrow> fst (forceLayout env l p m st) = Inr w \<Longrightarrow>
   allOk (snd (forceLayout env l p m st))"
  by (auto simp: forceLayout_def rotate_def Let_def split: option.splits if_splits)

lemma forceLayout_stops:
  "allOk st \<Longrightarrow> fst (forceLayout env l p m st) = Inl r \<Longrightarrow>
   stops r (snd (forceLayout env l p m st))"
  by (auto simp: forceLayout_def rotate_def Let_def split: option.splits if_splits)

lemma writePage_continues:
  "allOk st \<Longrightarrow> fst (writePage env cfg p out st) = None \<Longrightarrow>
   allOk (snd (writePage env cfg p out st))"
  by (auto simp: writePage_def Let_def split: if_splits)

lemma writePage_stops:
  "allOk st \<Longrightarrow> fst (writePage env cfg p out st) = Some r \<Longrightarrow>
   stops r (snd (writePage env cfg p out st))"
  by (auto simp: writePage_def Let_def split: if_splits)

lemma convertPage_continues:
  "allOk st \<Longrightarrow> fst (convertPage env cfg p img st) = None \<Longrightarrow>
   allOk (snd (convertPage env cfg p img st))"
  by (auto simp: convertPage_def Let_def case_prod_beta split: option.splits sum.splits
      intro!: writePage_continues forceLayout_continues)

lemma convertPage_stops:
  "allOk st \<Longrightarrow> fst (convertPage env cfg p img st) = Some r \<Longrightarrow>
   stops r (snd (convertPage env cfg p img st))"
  by (auto simp: convertPage_def Let_def case_prod_beta split: option.splits sum.splits
      intro!: writePage_stops forceLayout_stops forceLayout_continues)

lemma pagesLoop_continues:
  "allOk st \<Longrightarrow> fst (pagesLoop env cfg p imgs st) = None \<Longrightarrow>
   allOk (snd (pagesLoop env cfg p imgs st))"
proof (induction imgs arbitrary: p st)
  case Nil
  then show ?case by simp
next
  case (Cons img imgs)
  let ?s = "convertPage env cfg p img (emit (NextImage True) True st)"
  from Cons.prems(2) have none: "fst ?s = None"
    by (auto simp: case_prod_beta split: option.splits)
  with Cons.prems(1) have "allOk (snd ?s)"
    by (intro convertPage_continues) simp_all
  with Cons.prems(2) none show ?case
    by (auto simp: case_prod_beta intro: Cons.IH)
qed

lemma pagesLoop_stops:
  "allOk st \<Longrightarrow> fst (pagesLoop env cfg p imgs st) = Some r \<Longrightarrow>
   stops r (snd (pagesLoop env cfg p imgs st))"
proof (induction imgs arbitrary: p st)
  case Nil
  then show ?case by simp
next
  case (Cons img imgs)
  let ?s = "convertPage env cfg p img (emit (NextImage True) True st)"
  have ok: "allOk (emit (NextImage True) True st)"
    using Cons.prems(1) by simp
  show ?case
  proof (cases "fst ?s")
    case None
    with ok have "allOk (snd ?s)"
      by (intro convertPage_continues)
    with Cons.prems(2) None show ?thesis
      by (auto simp: case_prod_beta intro: Cons.IH)
  next
    case (Some r')
    with ok have "stops r' (snd ?s)"
      by (intro convertPage_stops)
    with Cons.prems(2) Some show ?thesis
      by (auto simp: case_prod_beta)
  qed
qed

lemma pipeline_shape:
  "stops (fst (pipeline env cfg body)) (snd (pipeline env cfg body)) \<or>
   allOk (snd (pipeline env cfg body)) \<and>
   fst (pipeline env cfg body) =
     \<lparr>status = StatusOK, payload = Data (entries (snd (pipeline env cfg body)))\<rparr>"
proof -
  have "allOk initial"
    by (simp add: allOk_def initial_def)
  then show ?thesis
    by (auto simp: pipeline_def Let_def case_prod_beta split: option.splits
        intro!: pagesLoop_stops pagesLoop_continues)
qed

subsection \<open>Entries of the archive\<close>

lemma entries_forceLayout [simp]: "entries (snd (forceLayout env l p m st)) = entries st"
  by (simp add: forceLayout_def rotate_def Let_def split: option.splits)

lemma names_writePage:
  "fst (writePage env cfg p out st) = None \<Longrightarrow>
   map fst (entries (snd (writePage env cfg p out st))) =
     map fst (entries st) @ [entryName p (extensionOf (format cfg))]"
  by (auto simp: writePage_def Let_def split: if_splits)

lemma names_convertPage:
  "fst (convertPage env cfg p img st) = None \<Longrightarrow>
   map fst (entries (snd (convertPage env cfg p img st))) =
     map fst (entries st) @ [entryName p (extensionOf (format cfg))]"
  by (auto simp: convertPage_def Let_def case_prod_beta names_writePage
      split: option.splits sum.splits)

lemma names_pagesLoop:
  "fst (pagesLoop env cfg p imgs st) = None \<Longrightarrow>
   map fst (entries (snd (pagesLoop env cfg p imgs st))) =
     map fst (entries st) @
     map (\<lambda>i. entryName (p + of_nat i) (extensionOf (format cfg))) [0..<length imgs]"
proof (induction imgs arbitrary: p st)
  case Nil
  then show ?case by simp
next
  case (Cons img imgs)
  let ?s = "convertPage env cfg p img (emit (NextImage True) True st)"
  from Cons.prems have none: "fst ?s = None"
    by (auto simp: case_prod_beta split: option.splits)
  with Cons.prems have rest: "fst (pagesLoop env cfg (p + 1) imgs (snd ?s)) = None"
    and eq: "pagesLoop env cfg p (img # imgs) st = pagesLoop env cfg (p + 1) imgs (snd ?s)"
    by (auto simp: case_prod_beta)
  have shift: "map (\<lambda>i. entryName (p + of_nat i) e) [0..<Suc n] =
      entryName p e # map (\<lambda>i. entryName (p + 1 + of_nat i) e) [0..<n]" for e n
    by (simp add: upt_conv_Cons map_Suc_upt [symmetric] ac_simps del: upt_Suc)
  show ?case
    using Cons.IH [OF rest] names_convertPage [OF none]
    by (simp add: eq shift del: upt_Suc pagesLoop.simps)
qed


lemma sint_page: "i < 2 ^ 63 \<Longrightarrow> sint (of_nat i :: 64 word) = int i"
proof -
  assume "i < 2 ^ 63"
  then have "int i < 2 ^ 63"
    by (metis of_nat_less_iff of_nat_numeral of_nat_power)
  then have "signed_take_bit 63 (int i) = int i"
    by (intro signed_take_bit_int_eq_self) simp_all
  moreover have "sint (of_nat i :: 64 word) = signed_take_bit 63 (int i)"
    using sint_sbintrunc' [where 'a = 64, of "int i"] by simp
  ultimately show ?thesis by simp
qed

lemma entries_initial [simp]: "entries initial = []"
  by (simp add: initial_def)

lemma allOk_initial [simp]: "allOk initial"
  by (simp add: allOk_def initial_def)

lemma stops_payload:
  "stops r st \<Longrightarrow> status r = StatusInternalServerError \<and> (\<exists>m. payload r = JSON [(''error'', m)])"
  by (auto simp: stops_def errorResponse_def)

lemma pipeline_names:
  assumes "payload (fst (pipeline env cfg (Some inp))) = Data a"
    and "readImageBlob env (density cfg) inp = Some imgs"
  shows "map fst a =
     map (\<lambda>i. entryName (of_nat i) (extensionOf (format cfg))) [0..<length imgs]"
proof -
  let ?st3 = "emit ResetIterator True (emit (ReadImageBlob inp) True
      (emit (SetResolution (density cfg) (density cfg)) True
        (deferCall Document (emit NewMagickWand True (emit ReadAll True initial)))))"
  let ?loop = "pagesLoop env cfg 0 imgs ?st3"
  have ok3: "allOk ?st3" by simp
  have none: "fst ?loop = None"
  proof (cases "fst ?loop")
    case (Some r)
    with ok3 have "stops r (snd ?loop)"
      by (intro pagesLoop_stops)
    then obtain m where "payload r = JSON [(''error'', m)]"
      using stops_payload by blast
    moreover from assms Some have "payload r = Data a"
      by (auto simp: pipeline_def Let_def case_prod_beta errorResponse_def
          split: option.splits if_splits)
    ultimately show ?thesis by simp
  qed simp
  with assms have a: "a = entries (snd ?loop)"
    by (auto simp: pipeline_def Let_def case_prod_beta errorResponse_def
        split: option.splits if_splits)
  show ?thesis
    using names_pagesLoop [OF none] by (simp add: a)
qed

subsection \<open>The handler, by the outcome of the parameter checks\<close>

lemma handler_resolved:
  "resolveParams env (reqQuery req) = Inr cfg \<Longrightarrow>
   convertHandler env req =
     (fst (pipeline env cfg (reqBody req)), runDeferred (snd (pipeline env cfg (reqBody req))))"
  by (simp add: convertHandler_def case_prod_beta)

lemma handler_rejected:
  "resolveParams env (reqQuery req) = Inl r \<Longrightarrow> convertHandler env req = (r, [])"
  by (simp add: convertHandler_def)

subsection \<open>Runs on the small engine\<close>

lemma rotationContract_fakeEnv: "rotationContract fakeEnv"
  by (simp add: rotationContract_def fakeEnv_def)

lemma fakeEnv_two_pages_trace:
  "snd (convertHandler fakeEnv \<lparr>reqQuery = Map.empty, reqBody = Some [3, 5, 4, 4]\<rparr>) =
     [(ReadAll, True), (NewMagickWand, True), (SetResolution float_300 float_300, True),
      (ReadImageBlob [3, 5, 4, 4], True), (ResetIterator, True),
      (NextImage True, True), (GetImage 0, True), (MergeImageLayers 0, True),
      (SetImageCompressionQuality 0 85, True), (SetImageFormat 0 ''JPEG'', True),
      (GetImageBlob 0, True), (ZipCreate ''0000.jpg'', True), (ZipWrite ''0000.jpg'', True),
      (NextImage True, True), (GetImage 1, True), (MergeImageLayers 1, True),
      (SetImageCompressionQuality 1 85, True), (SetImageFormat 1 ''JPEG'', True),
      (GetImageBlob 1, True), (ZipCreate ''0001.jpg'', True), (ZipWrite ''0001.jpg'', True),
      (NextImage False, True), (ZipClose, True),
      (Destroy (FlatHandle 1), True), (Destroy (PageHandle 1), True),
      (Destroy (FlatHandle 0), True), (Destroy (PageHandle 0), True),
      (Destroy Document, True)]"
proof -
  let ?req = "\<lparr>reqQuery = Map.empty, reqBody = Some [3, 5, 4, 4]\<rparr>"
  let ?cfg = "\<lparr>density = float_300, quality = 85, format = ''JPEG'', layout = ''KEEP''\<rparr>"
  have params: "resolveParams fakeEnv (reqQuery ?req) = Inr ?cfg"
    by (simp add: resolveParams_def parseDensity_def parseQuality_def parseFormat_def
        parseLayout_def Get_def layoutTypeKeep_def)
  have n0: "entryName 0 ''jpg'' = ''0000.jpg''" and n1: "entryName 1 ''jpg'' = ''0001.jpg''"
    by code_simp+
  have ext: "extensionOf ''JPEG'' = ''jpg''"
    by (simp add: extensionOf_def formatExtensionMap_def)
  show ?thesis
    unfolding handler_resolved [OF params]
    by (simp add: pipeline_def convertPage_def forceLayout_def writePage_def Let_def
        fakeEnv_def layoutTypeLandscape_def layoutTypePortrait_def n0 n1 ext runDeferred_def
        initial_def)
qed


subsection \<open>Rejected and accepted parameters\<close>

lemma parseDensity_Inl:
  "(parseDensity env q = Inl r) =
     (Get q ''density'' \<noteq> [] \<and> parseFloat env (Get q ''density'') = None \<and>
      r = errorResponse StatusBadRequest ''invalid density'')"
  by (auto simp: parseDensity_def Let_def split: option.splits)

lemma parseQuality_Inl:
  "(parseQuality env q = Inl r) =
     (Get q ''quality'' \<noteq> [] \<and> parseUint env (Get q ''quality'') = None \<and>
      r = errorResponse StatusBadRequest ''invalid compression quality'')"
  by (auto simp: parseQuality_def Let_def split: option.splits)

lemma parseFormat_Inl:
  "(parseFormat env q = Inl r) =
     (Get q ''format'' \<noteq> [] \<and> formatExtensionMap (ToUpper env (Get q ''format'')) = None \<and>
      r = errorResponse StatusBadRequest ''invalid output format'')"
  by (auto simp: parseFormat_def Let_def)

lemma parseLayout_Inl:
  "(parseLayout env q = Inl r) =
     (Get q ''layout'' \<noteq> [] \<and>
      ToUpper env (Get q ''layout'') \<noteq> layoutTypeLandscape \<and>
      ToUpper env (Get q ''layout'') \<noteq> layoutTypePortrait \<and>
      ToUpper env (Get q ''layout'') \<noteq> layoutTypeKeep \<and>
      r = errorResponse StatusBadRequest ''invalid output layout'')"
  by (auto simp: parseLayout_def Let_def)

lemma resolveParams_Inl:
  "(resolveParams env q = Inl r) =
     (parseDensity env q = Inl r
      \<or> (\<exists>d. parseDensity env q = Inr d) \<and> parseQuality env q = Inl r
      \<or> (\<exists>d. parseDensity env q = Inr d) \<and> (\<exists>n. parseQuality env q = Inr n) \<and>
         parseFormat env q = Inl r
      \<or> (\<exists>d. parseDensity env q = Inr d) \<and> (\<exists>n. parseQuality env q = Inr n) \<and>
         (\<exists>f. parseFormat env q = Inr f) \<and> parseLayout env q = Inl r)"
  by (simp add: resolveParams_def split: sum.splits)

lemma resolveParams_invalid:
  assumes "invalidParameters env q"
  shows "\<exists>m. resolveParams env q = Inl (errorResponse StatusBadRequest m)"
proof -
  let ?bad = "\<lambda>x. \<exists>r. x = Inl r"
  have cases: "?bad (parseDensity env q) \<or> ?bad (parseQuality env q)
      \<or> ?bad (parseFormat env q) \<or> ?bad (parseLayout env q)"
    using assms
    unfolding invalidParameters_def parseDensity_Inl parseQuality_Inl parseFormat_Inl
      parseLayout_Inl
    by blast
  have good: "(\<not> ?bad x) = (\<exists>y. x = Inr y)" for x :: "response + 'b"
    by (cases x) simp_all
  show ?thesis
  proof (cases "?bad (parseDensity env q)")
    case True
    then show ?thesis
      unfolding resolveParams_Inl parseDensity_Inl by blast
  next
    case d: False
    show ?thesis
    proof (cases "?bad (parseQuality env q)")
      case True
      with d [unfolded good] show ?thesis
        unfolding resolveParams_Inl parseQuality_Inl by blast
    next
      case n: False
      show ?thesis
      proof (cases "?bad (parseFormat env q)")
        case True
        with d [unfolded good] n [unfolded good] show ?thesis
          unfolding resolveParams_Inl parseFormat_Inl by blast
      next
        case f: False
        with cases d n have "?bad (parseLayout env q)"
          by blast
        with d [unfolded good] n [unfolded good] f [unfolded good] show ?thesis
          unfolding resolveParams_Inl parseLayout_Inl by blast
      qed
    qed
  qed
qed


subsection \<open>A failed call and the answer\<close>



lemma failedAt_unique:
  "failedAt st c \<Longrightarrow> (c', False) \<in> set (trace st) \<Longrightarrow> c' = c"
  by (fastforce simp: failedAt_def list_all_iff)

lemma handler_failed_call:
  assumes "(c, False) \<in> set (snd (convertHandler env req))"
  shows "fst (convertHandler env req) =
    errorResponse StatusInternalServerError (failureMessage c)"
proof (cases "resolveParams env (reqQuery req)")
  case (Inl r)
  with assms show ?thesis
    by (simp add: handler_rejected)
next
  case (Inr cfg)
  let ?p = "pipeline env cfg (reqBody req)"
  from assms have "(c, False) \<in> set (trace (snd ?p))"
    by (auto simp: handler_resolved [OF Inr] runDeferred_def)
  then have "\<not> allOk (snd ?p)" and mem: "(c, False) \<in> set (trace (snd ?p))"
    by (force simp: allOk_def list_all_iff)+
  with pipeline_shape [of env cfg "reqBody req"] have "stops (fst ?p) (snd ?p)"
    by blast
  then obtain c' where f: "failedAt (snd ?p) c'"
    and r: "fst ?p = errorResponse StatusInternalServerError (failureMessage c')"
    by (auto simp: stops_def)
  from failedAt_unique [OF f mem] r show ?thesis
    by (simp add: handler_resolved [OF Inr])
qed


subsection \<open>The query is read through Get only\<close>

lemma resolveParams_Get:
  assumes "\<And>k. Get q k = Get q' k"
  shows "resolveParams env q = resolveParams env q'"
  by (simp only: resolveParams_def parseDensity_def parseQuality_def parseFormat_def
      parseLayout_def assms)

lemma Get_empty_value: "Get (q(k \<mapsto> [] # vs)) k' = Get (q(k := None)) k'"
  by (simp add: Get_def)

lemma handler_query:
  "resolveParams env (reqQuery req) = resolveParams env (reqQuery req') \<Longrightarrow>
   reqBody req = reqBody req' \<Longrightarrow> convertHandler env req = convertHandler env req'"
  by (simp add: convertHandler_def split: sum.splits)

subsection \<open>The trace only grows\<close>

lemma kept_emit: "e \<in> set (trace st) \<Longrightarrow> e \<in> set (trace (emit c ok st))"
  by simp

lemma kept_deferCall: "e \<in> set (trace st) \<Longrightarrow> e \<in> set (trace (deferCall h st))"
  by simp

lemma kept_forceLayout:
  "e \<in> set (trace st) \<Longrightarrow> e \<in> set (trace (snd (forceLayout env l p m st)))"
  by (simp add: forceLayout_def rotate_def Let_def split: option.splits)

lemma kept_writePage:
  "e \<in> set (trace st) \<Longrightarrow> e \<in> set (trace (snd (writePage env cfg p out st)))"
  by (simp add: writePage_def Let_def)

lemma kept_convertPage:
  "e \<in> set (trace st) \<Longrightarrow> e \<in> set (trace (snd (convertPage env cfg p img st)))"
  by (auto simp: convertPage_def Let_def case_prod_beta split: option.splits sum.splits
      intro!: kept_writePage kept_forceLayout kept_emit kept_deferCall)

lemma kept_pagesLoop:
  "e \<in> set (trace st) \<Longrightarrow> e \<in> set (trace (snd (pagesLoop env cfg p imgs st)))"
proof (induction imgs arbitrary: p st)
  case Nil
  then show ?case by simp
next
  case (Cons img imgs)
  have "e \<in> set (trace (snd (convertPage env cfg p img (emit (NextImage True) True st))))"
    using Cons.prems by (intro kept_convertPage kept_emit)
  then show ?case
    by (auto simp: case_prod_beta split: option.splits intro: Cons.IH)
qed

lemma pipeline_sets_resolution:
  "(SetResolution (density cfg) (density cfg), setResolution env (density cfg) (density cfg))
     \<in> set (trace (snd (pipeline env cfg (Some inp))))"
proof (cases "setResolution env (density cfg) (density cfg)")
  case False
  then show ?thesis
    by (simp add: pipeline_def Let_def)
next
  case True
  let ?e = "(SetResolution (density cfg) (density cfg), True)"
  let ?st2 = "emit (SetResolution (density cfg) (density cfg)) True
      (deferCall Document (emit NewMagickWand True (emit ReadAll True initial)))"
  have st2: "?e \<in> set (trace ?st2)"
    by simp
  show ?thesis
  proof (cases "readImageBlob env (density cfg) inp")
    case None
    with True show ?thesis
      by (simp add: pipeline_def Let_def)
  next
    case (Some imgs)
    let ?st3 = "emit ResetIterator True (emit (ReadImageBlob inp) True ?st2)"
    have "?e \<in> set (trace (snd (pagesLoop env cfg 0 imgs ?st3)))"
      by (intro kept_pagesLoop kept_emit st2)
    with True Some show ?thesis
      by (simp add: pipeline_def Let_def case_prod_beta split: option.splits)
  qed
qed

subsection \<open>Letter case of ASCII strings\<close>

lemma lowerASCII_of_letter:
  assumes "lowerASCII a = x" and "(97::nat) \<le> of_char x" and "of_char x \<le> (122::nat)"
  shows "isASCII a \<and> upperASCII a = upperASCII x"
proof (cases "(65::nat) \<le> of_char a \<and> of_char a \<le> (90::nat)")
  case True
  with assms(1) have x: "x = char_of (of_char a + (32::nat))"
    by (simp add: lowerASCII_def)
  from True have "(of_char a + (32::nat)) mod 256 = of_char a + 32"
    by simp
  with x have ox: "(of_char x :: nat) = of_char a + 32"
    by simp
  then have "upperASCII x = a"
    using assms(2,3) by (simp add: upperASCII_def)
  moreover from True have "upperASCII a = a"
    by (simp add: upperASCII_def)
  moreover from True have "isASCII a"
    by (simp add: isASCII_def)
  ultimately show ?thesis
    by simp
next
  case False
  with assms(1) have "a = x"
    by (auto simp: lowerASCII_def)
  with assms(3) show ?thesis
    by (simp add: isASCII_def)
qed

lemma upperASCII_of_letter:
  assumes "upperASCII a = x" and "(65::nat) \<le> of_char x" and "of_char x \<le> (90::nat)"
  shows "lowerASCII a = lowerASCII x"
proof (cases "(97::nat) \<le> of_char a \<and> of_char a \<le> (122::nat)")
  case True
  with assms(1) have x: "x = char_of (of_char a - (32::nat))"
    by (simp add: upperASCII_def)
  have "(of_char a :: nat) - 32 < 256"
    using nat_of_char_less_256 [of a] by linarith
  then have "(of_char a - (32::nat)) mod 256 = of_char a - 32"
    by simp
  with x have ox: "(of_char x :: nat) = of_char a - 32"
    by simp
  with True have "lowerASCII x = a"
    using assms(2,3) by (simp add: lowerASCII_def)
  moreover from True have "lowerASCII a = a"
    by (simp add: lowerASCII_def)
  ultimately show ?thesis
    by simp
next
  case False
  with assms(1) have "a = x"
    by (auto simp: upperASCII_def)
  then show ?thesis
    by simp
qed

lemma lower_word_upper:
  "list_all lowerLetter b \<Longrightarrow> map lowerASCII v = b \<Longrightarrow>
   list_all isASCII v \<and> map upperASCII v = map upperASCII b"
proof (induction v arbitrary: b)
  case Nil
  then show ?case by simp
next
  case (Cons a v)
  then obtain x b' where b: "b = x # b'" and x: "lowerASCII a = x" and b': "map lowerASCII v = b'"
    by auto
  with Cons.prems have lx: "lowerLetter x" and lb: "list_all lowerLetter b'"
    by simp_all
  from lx have "isASCII a \<and> upperASCII a = upperASCII x"
    by (intro lowerASCII_of_letter x) (simp_all add: lowerLetter_def)
  moreover have "list_all isASCII v \<and> map upperASCII v = map upperASCII b'"
    using lb b' by (rule Cons.IH)
  ultimately show ?case
    by (simp add: b)
qed

lemma upper_word_lower:
  "list_all upperLetter b \<Longrightarrow> map upperASCII v = b \<Longrightarrow>
   map lowerASCII v = map lowerASCII b"
proof (induction v arbitrary: b)
  case Nil
  then show ?case by simp
next
  case (Cons a v)
  then obtain x b' where b: "b = x # b'" and x: "upperASCII a = x" and b': "map upperASCII v = b'"
    by auto
  with Cons.prems have lx: "upperLetter x" and lb: "list_all upperLetter b'"
    by simp_all
  from lx have "lowerASCII a = lowerASCII x"
    by (intro upperASCII_of_letter x) (simp_all add: upperLetter_def)
  moreover have "map lowerASCII v = map lowerASCII b'"
    using lb b' by (rule Cons.IH)
  ultimately show ?case
    by (simp add: b)
qed

lemma format_words:
  "list_all lowerLetter ''jpeg''" "list_all lowerLetter ''png''" "list_all lowerLetter ''tiff''"
  "list_all upperLetter ''JPEG''" "list_all upperLetter ''PNG''" "list_all upperLetter ''TIFF''"
  "map lowerASCII ''jpeg'' = ''jpeg''" "map lowerASCII ''png'' = ''png''"
  "map lowerASCII ''tiff'' = ''tiff''"
  "map lowerASCII ''JPEG'' = ''jpeg''" "map lowerASCII ''PNG'' = ''png''"
  "map lowerASCII ''TIFF'' = ''tiff''"
  "map upperASCII ''jpeg'' = ''JPEG''" "map upperASCII ''png'' = ''PNG''"
  "map upperASCII ''tiff'' = ''TIFF''"
  "list_all isASCII ''jpeg''" "list_all isASCII ''png''" "list_all isASCII ''tiff''"
  by code_simp+

lemma equalFoldASCII_ToUpper:
  assumes "equalFoldASCII v w" and "list_all lowerLetter w"
  shows "list_all isASCII v \<and> ToUpper env v = map upperASCII w"
proof -
  from assms(2) have "map lowerASCII w = w"
    by (induction w) (simp_all add: lowerLetter_def lowerASCII_def)
  with assms(1) have "map lowerASCII v = w"
    by (simp add: equalFoldASCII_def)
  from lower_word_upper [OF assms(2) this] show ?thesis
    by (simp add: ToUpper_def)
qed

lemma ToUpper_equalFoldASCII:
  assumes "list_all isASCII v" and "ToUpper env v = u" and "list_all upperLetter u"
  shows "map lowerASCII v = map lowerASCII u"
proof -
  from assms(1,2) have "map upperASCII v = u"
    by (simp add: ToUpper_def)
  from upper_word_lower [OF assms(3) this] show ?thesis .
qed

lemma formatExtensionMap_None:
  "(formatExtensionMap u = None) = (u \<noteq> ''JPEG'' \<and> u \<noteq> ''PNG'' \<and> u \<noteq> ''TIFF'')"
  by (simp add: formatExtensionMap_def)


subsection \<open>The printed page index\<close>

lemma of_char_digit: "d < 10 \<Longrightarrow> (of_char (char_of (48 + d :: nat)) :: nat) = 48 + d"
  by simp

lemma char_zero: "CHR ''0'' = char_of (48 :: nat)"
  by code_simp

lemma digitChar_eq: "digitChar d = char_of (48 + d)"
  by (simp add: digitChar_def)

lemma sprintf_four: "i < 10000 \<Longrightarrow> sprintf_04d (int i) = fourDigits i"
proof -
  assume i: "i < 10000"
  consider "i < 10" | "10 \<le> i" "i < 100" | "100 \<le> i" "i < 1000" | "1000 \<le> i"
    by linarith
  then show ?thesis
  proof cases
    case 1
    then show ?thesis
      by (simp add: sprintf_04d_def padZero_def decimal.simps [of i] fourDigits_def
          digitChar_eq char_zero numeral_3_eq_3)
  next
    case 2
    then have "i div 10 < 10" by simp
    with 2 show ?thesis
      by (simp add: sprintf_04d_def padZero_def decimal.simps [of i]
          decimal.simps [of "i div 10"] fourDigits_def digitChar_eq char_zero
          numeral_2_eq_2)
  next
    case 3
    then have a: "\<not> i div 10 < 10" and b: "i div 10 div 10 < 10" and c: "i div 1000 = 0"
      and d: "i div 100 = i div 10 div 10"
      by (simp_all add: div_mult2_eq [symmetric])
    with 3 show ?thesis
      by (simp add: sprintf_04d_def padZero_def decimal.simps [of i]
          decimal.simps [of "i div 10"] decimal.simps [of "i div 10 div 10"]
          fourDigits_def digitChar_eq char_zero)
  next
    case 4
    with i have a: "\<not> i div 10 < 10" and b: "\<not> i div 10 div 10 < 10"
      and c: "i div 10 div 10 div 10 < 10"
      and d: "i div 100 = i div 10 div 10" and e: "i div 1000 = i div 10 div 10 div 10"
      by (simp_all add: div_mult2_eq [symmetric])
    with 4 i show ?thesis
      by (simp add: sprintf_04d_def padZero_def decimal.simps [of i]
          decimal.simps [of "i div 10"] decimal.simps [of "i div 10 div 10"]
          decimal.simps [of "i div 10 div 10 div 10"]
          fourDigits_def digitChar_eq)
  qed
qed

lemma lexLess_digits:
  assumes "a < 10" and "b < 10"
  shows "lexLess (char_of (48 + a :: nat) # xs) (char_of (48 + b :: nat) # ys) =
    (a < b \<or> a = b \<and> lexLess xs ys)"
proof -
  have oa: "(of_char (char_of (48 + a)) :: nat) = 48 + a"
    and ob: "(of_char (char_of (48 + b)) :: nat) = 48 + b"
    using assms by simp_all
  have "(char_of (48 + a) = char_of (48 + b)) = (a = b)"
  proof
    assume "char_of (48 + a) = char_of (48 + b)"
    then have "(of_char (char_of (48 + a)) :: nat) = of_char (char_of (48 + b))"
      by (rule arg_cong)
    then show "a = b"
      unfolding oa ob by simp
  next
    assume "a = b"
    then show "char_of (48 + a) = char_of (48 + b)"
      by (rule arg_cong)
  qed
  then show ?thesis
    unfolding lexLess.simps oa ob by simp
qed

lemma lexLess_irrefl: "\<not> lexLess s s"
  by (induction s) simp_all

lemma less_by_digits:
  assumes "(i::nat) < j"
  shows "i div 10 < j div 10 \<or> i div 10 = j div 10 \<and> i mod 10 < j mod 10"
proof (cases "i div 10 = j div 10")
  case True
  have "i = 10 * (i div 10) + i mod 10" and "j = 10 * (j div 10) + j mod 10"
    by simp_all
  with True assms have "i mod 10 < j mod 10"
    by linarith
  with True show ?thesis
    by simp
next
  case False
  from assms have "i div 10 \<le> j div 10"
    by (intro div_le_mono) simp
  with False show ?thesis
    by simp
qed

lemma lexLess_fourDigits:
  assumes "i < j" and "j < 10000"
  shows "lexLess (fourDigits i @ s) (fourDigits j @ s)"
proof -
  have d: "x mod 10 < 10" for x :: nat
    by simp
  define i1 i2 i3 j1 j2 j3 where "i1 = i div 10" and "i2 = i1 div 10" and "i3 = i2 div 10"
    and "j1 = j div 10" and "j2 = j1 div 10" and "j3 = j2 div 10"
  have e: "i div 100 = i2" "i div 1000 = i3" "j div 100 = j2" "j div 1000 = j3"
    "i div 10 = i1" "j div 10 = j1"
    by (simp_all add: i1_def i2_def i3_def j1_def j2_def j3_def div_mult2_eq [symmetric])
  from assms have "j3 < 10" "i3 < 10"
    by (simp_all add: e [symmetric])
  then have m: "i3 mod 10 = i3" "j3 mod 10 = j3"
    by simp_all
  have a: "i1 < j1 \<or> i1 = j1 \<and> i mod 10 < j mod 10"
    using less_by_digits [OF assms(1)] by (simp add: i1_def j1_def)
  have b: "i1 < j1 \<Longrightarrow> i2 < j2 \<or> i2 = j2 \<and> i1 mod 10 < j1 mod 10"
    using less_by_digits [of i1 j1] by (simp add: i2_def j2_def)
  have c: "i2 < j2 \<Longrightarrow> i3 < j3 \<or> i3 = j3 \<and> i2 mod 10 < j2 mod 10"
    using less_by_digits [of i2 j2] by (simp add: i3_def j3_def)
  have "i3 mod 10 < j3 mod 10
    \<or> i3 mod 10 = j3 mod 10 \<and>
      (i2 mod 10 < j2 mod 10
       \<or> i2 mod 10 = j2 mod 10 \<and>
         (i1 mod 10 < j1 mod 10 \<or> i1 mod 10 = j1 mod 10 \<and> i mod 10 < j mod 10))"
  proof (cases "i1 < j1")
    case False
    with a have "i1 = j1" and "i mod 10 < j mod 10"
      by simp_all
    then show ?thesis
      by (simp add: i2_def i3_def j2_def j3_def)
  next
    case True
    show ?thesis
    proof (cases "i2 < j2")
      case False
      with b [OF True] have "i2 = j2" and "i1 mod 10 < j1 mod 10"
        by simp_all
      then show ?thesis
        by (simp add: i3_def j3_def)
    next
      case True
      from c [OF True] show ?thesis
        unfolding m by blast
    qed
  qed
  then show ?thesis
    unfolding fourDigits_def e append.simps lexLess_digits [OF d d]
    using lexLess_irrefl [of s] by blast
qed


lemma sorted_fourDigits:
  "n \<le> 10000 \<Longrightarrow> sorted_wrt lexLess (map (\<lambda>i. fourDigits i @ s) [0..<n])"
proof -
  assume n: "n \<le> 10000"
  have "sorted_wrt (<) [0..<n]"
    by (rule sorted_wrt_upt)
  then have "sorted_wrt (\<lambda>i j. lexLess (fourDigits i @ s) (fourDigits j @ s)) [0..<n]"
  proof (rule sorted_wrt_mono_rel [rotated])
    fix i j
    assume "i \<in> set [0..<n]" "j \<in> set [0..<n]" "i < j"
    with n show "lexLess (fourDigits i @ s) (fourDigits j @ s)"
      by (intro lexLess_fourDigits) simp_all
  qed
  then show ?thesis
    by (simp add: sorted_wrt_map)
qed

lemma decimalValue_snoc:
  "decimalValue (s @ [c]) = 10 * decimalValue s + (of_char c - 48)"
  by (simp add: decimalValue_def)

lemma decimal_digits: "list_all isDigit (decimal n) \<and> decimalValue (decimal n) = n"
proof (induction n rule: decimal.induct)
  case (1 n)
  show ?case
  proof (cases "n < 10")
    case True
    then show ?thesis
      by (simp add: decimal.simps [of n] isDigit_def digitChar_eq decimalValue_def)
  next
    case False
    from False have "n mod 10 < 10" by simp
    with 1 [OF False] False show ?thesis
      by (simp add: decimal.simps [of n] decimalValue_snoc isDigit_def digitChar_eq)
  qed
qed


lemma decimalValue_zeros: "decimalValue (replicate k (CHR ''0'') @ s) = decimalValue s"
proof (induction k)
  case 0
  then show ?case by simp
next
  case (Suc k)
  have "decimalValue (CHR ''0'' # t) = decimalValue t" for t
    by (simp add: decimalValue_def)
  with Suc show ?case by simp
qed


lemma sprintf_decimal:
  "4 \<le> length (sprintf_04d (int i)) \<and> list_all isDigit (sprintf_04d (int i))
   \<and> decimalValue (sprintf_04d (int i)) = i"
proof -
  have z: "isDigit (CHR ''0'')"
    by (simp add: isDigit_def)
  then have "list_all isDigit (replicate k (CHR ''0''))" for k
    by (induction k) simp_all
  then show ?thesis
    using decimal_digits [of i]
    by (simp add: sprintf_04d_def padZero_def decimalValue_zeros)
qed


lemma sprintf_inj:
  assumes "sprintf_04d (int i) = sprintf_04d (int j)"
  shows "i = j"
proof -
  from assms have "decimalValue (sprintf_04d (int i)) = decimalValue (sprintf_04d (int j))"
    by (rule arg_cong)
  then show ?thesis
    by (simp only: sprintf_decimal)
qed

subsection \<open>The bytes of a page\<close>

lemma forceLayout_orient:
  "fst (forceLayout env l p m st) =
     (case orient env l m of
        None \<Rightarrow> Inl (errorResponse StatusInternalServerError ''failed to rotate image'')
      | Some r \<Rightarrow> Inr r)"
  by (simp add: forceLayout_def rotate_def orient_def Let_def layoutTypeLandscape_def
      layoutTypePortrait_def split: option.splits)

lemma bytes_writePage:
  "fst (writePage env cfg p out st) = None \<Longrightarrow>
   map snd (entries (snd (writePage env cfg p out st))) = map snd (entries st) @ [out]"
  by (auto simp: writePage_def Let_def split: if_splits)

lemma bytes_convertPage:
  assumes "fst (convertPage env cfg p img st) = None"
  shows "map (\<lambda>e. Some (snd e)) (entries (snd (convertPage env cfg p img st))) =
     map (\<lambda>e. Some (snd e)) (entries st) @ [pageBytes env cfg img]"
proof -
  have "\<exists>out. pageBytes env cfg img = Some out \<and>
      map snd (entries (snd (convertPage env cfg p img st))) = map snd (entries st) @ [out]"
    using assms forceLayout_orient [of env "layout cfg" p]
    by (auto simp: convertPage_def pageBytes_def Let_def case_prod_beta bytes_writePage
        split: option.splits sum.splits)
  then obtain out where out: "pageBytes env cfg img = Some out"
    and "map snd (entries (snd (convertPage env cfg p img st))) = map snd (entries st) @ [out]"
    by blast
  then have "map Some (map snd (entries (snd (convertPage env cfg p img st)))) =
      map Some (map snd (entries st) @ [out])"
    by simp
  with out show ?thesis
    by (simp add: comp_def)
qed

lemma bytes_pagesLoop:
  "fst (pagesLoop env cfg p imgs st) = None \<Longrightarrow>
   map (\<lambda>e. Some (snd e)) (entries (snd (pagesLoop env cfg p imgs st))) =
     map (\<lambda>e. Some (snd e)) (entries st) @ map (pageBytes env cfg) imgs"
proof (induction imgs arbitrary: p st)
  case Nil
  then show ?case by simp
next
  case (Cons img imgs)
  let ?s = "convertPage env cfg p img (emit (NextImage True) True st)"
  from Cons.prems have none: "fst ?s = None"
    by (auto simp: case_prod_beta split: option.splits)
  with Cons.prems have rest: "fst (pagesLoop env cfg (p + 1) imgs (snd ?s)) = None"
    and eq: "pagesLoop env cfg p (img # imgs) st = pagesLoop env cfg (p + 1) imgs (snd ?s)"
    by (auto simp: case_prod_beta)
  show ?case
    using Cons.IH [OF rest] bytes_convertPage [OF none]
    by (simp add: eq del: pagesLoop.simps)
qed

lemma pipeline_bytes:
  assumes "payload (fst (pipeline env cfg (Some inp))) = Data a"
    and "readImageBlob env (density cfg) inp = Some imgs"
  shows "map (\<lambda>e. Some (snd e)) a = map (pageBytes env cfg) imgs"
proof -
  let ?st3 = "emit ResetIterator True (emit (ReadImageBlob inp) True
      (emit (SetResolution (density cfg) (density cfg)) True
        (deferCall Document (emit NewMagickWand True (emit ReadAll True initial)))))"
  let ?loop = "pagesLoop env cfg 0 imgs ?st3"
  have ok3: "allOk ?st3" by simp
  have none: "fst ?loop = None"
  proof (cases "fst ?loop")
    case (Some r)
    with ok3 have "stops r (snd ?loop)"
      by (intro pagesLoop_stops)
    then obtain m where "payload r = JSON [(''error'', m)]"
      using stops_payload by blast
    moreover from assms Some have "payload r = Data a"
      by (auto simp: pipeline_def Let_def case_prod_beta errorResponse_def
          split: option.splits if_splits)
    ultimately show ?thesis by simp
  qed simp
  with assms have a: "a = entries (snd ?loop)"
    by (auto simp: pipeline_def Let_def case_prod_beta errorResponse_def
        split: option.splits if_splits)
  show ?thesis
    using bytes_pagesLoop [OF none] by (simp add: a)
qed

lemma resolved_format:
  assumes "resolveParams env q = Inr cfg"
  shows "format cfg = ''JPEG'' \<and> extensionOf (format cfg) = ''jpg''
    \<or> format cfg = ''PNG'' \<and> extensionOf (format cfg) = ''png''
    \<or> format cfg = ''TIFF'' \<and> extensionOf (format cfg) = ''tiff''"
proof -
  from assms have "parseFormat env q = Inr (format cfg)"
    by (auto simp: resolveParams_def split: sum.splits)
  then have "formatExtensionMap (format cfg) \<noteq> None"
    by (auto simp: parseFormat_def Let_def formatExtensionMap_def split: if_splits)
  then have "format cfg = ''JPEG'' \<or> format cfg = ''PNG'' \<or> format cfg = ''TIFF''"
    by (simp add: formatExtensionMap_None)
  then show ?thesis
    by (auto simp: extensionOf_def formatExtensionMap_def)
qed

section \<open>The claims\<close>

text \<open>
  C1, as the code has it. \<open>LANDSCAPE\<close> rotates a page only when its width is strictly
  less than its height, \<open>PORTRAIT\<close> only when its height is strictly less than its width;
  the rotation is by the negative angle \<open>-90\<close>, and with an engine that exchanges the two
  dimensions on it the page comes out strictly wider than tall (strictly taller than wide).
  Any other page, a square one included, is passed on unrotated, and \<open>KEEP\<close> touches
  neither the page nor the state.
\<close>

theorem layout_rotates_on_strict_inequality:
  assumes "rotationContract env"
  shows "(getImageWidth env m < getImageHeight env m \<and> rotateImage env m float_neg90 = Some r \<longrightarrow>
            fst (forceLayout env layoutTypeLandscape p m st) = Inr r
            \<and> getImageHeight env r < getImageWidth env r
            \<and> (RotateImage p float_neg90, True) \<in> set (trace (snd (forceLayout env layoutTypeLandscape p m st)))
            \<and> signbit float_neg90)
    \<and> (getImageHeight env m < getImageWidth env m \<and> rotateImage env m float_neg90 = Some r \<longrightarrow>
            fst (forceLayout env layoutTypePortrait p m st) = Inr r
            \<and> getImageWidth env r < getImageHeight env r
            \<and> (RotateImage p float_neg90, True) \<in> set (trace (snd (forceLayout env layoutTypePortrait p m st)))
            \<and> signbit float_neg90)
    \<and> (\<not> getImageWidth env m < getImageHeight env m \<longrightarrow>
            forceLayout env layoutTypeLandscape p m st =
              (Inr m, emit (GetImageHeight p) True (emit (GetImageWidth p) True st)))
    \<and> (\<not> getImageHeight env m < getImageWidth env m \<longrightarrow>
            forceLayout env layoutTypePortrait p m st =
              (Inr m, emit (GetImageHeight p) True (emit (GetImageWidth p) True st)))
    \<and> forceLayout env layoutTypeKeep p m st = (Inr m, st)"
  using assms
  by (auto simp: forceLayout_def rotate_def Let_def rotationContract_def float_neg90_def
      layoutTypeLandscape_def layoutTypePortrait_def layoutTypeKeep_def)

theorem layout_rotates_on_strict_inequality_witness:
  "rotationContract fakeEnv
   \<and> getImageWidth fakeEnv (3, 5) < getImageHeight fakeEnv (3, 5)
   \<and> rotateImage fakeEnv (3, 5) float_neg90 = Some (5, 3)
   \<and> fst (forceLayout fakeEnv layoutTypeLandscape 0 (3, 5) initial) = Inr (5, 3)
   \<and> getImageHeight fakeEnv (5, 3) < getImageWidth fakeEnv (5, 3)
   \<and> getImageHeight fakeEnv (8, 6) < getImageWidth fakeEnv (8, 6)
   \<and> rotateImage fakeEnv (8, 6) float_neg90 = Some (6, 8)
   \<and> fst (forceLayout fakeEnv layoutTypePortrait 0 (8, 6) initial) = Inr (6, 8)
   \<and> getImageWidth fakeEnv (6, 8) < getImageHeight fakeEnv (6, 8)
   \<and> \<not> getImageWidth fakeEnv (8, 6) < getImageHeight fakeEnv (8, 6)
   \<and> forceLayout fakeEnv layoutTypeLandscape 0 (8, 6) initial =
       (Inr (8, 6), emit (GetImageHeight 0) True (emit (GetImageWidth 0) True initial))
   \<and> \<not> getImageHeight fakeEnv (3, 5) < getImageWidth fakeEnv (3, 5)
   \<and> forceLayout fakeEnv layoutTypePortrait 0 (3, 5) initial =
       (Inr (3, 5), emit (GetImageHeight 0) True (emit (GetImageWidth 0) True initial))"
proof -
  have a: "getImageWidth fakeEnv (3, 5) < getImageHeight fakeEnv (3, 5)"
    and b: "rotateImage fakeEnv (3, 5) float_neg90 = Some (5, 3)"
    and c: "getImageHeight fakeEnv (8, 6) < getImageWidth fakeEnv (8, 6)"
    and d: "rotateImage fakeEnv (8, 6) float_neg90 = Some (6, 8)"
    and e: "\<not> getImageWidth fakeEnv (8, 6) < getImageHeight fakeEnv (8, 6)"
    and f: "\<not> getImageHeight fakeEnv (3, 5) < getImageWidth fakeEnv (3, 5)"
    by (simp_all add: fakeEnv_def)
  from layout_rotates_on_strict_inequality
      [OF rotationContract_fakeEnv, of "(3, 5)" "(5, 3)" 0 initial]
    layout_rotates_on_strict_inequality
      [OF rotationContract_fakeEnv, of "(8, 6)" "(6, 8)" 0 initial]
    rotationContract_fakeEnv a b c d e f
  show ?thesis
    by blast
qed

text \<open>
  As stated, with \<open>\<ge>\<close> in place of \<open><\<close>, the claim fails on a square page: at 4 by 4
  the height is at least the width and the width at least the height, yet neither layout
  rotates the page, and its width does not exceed its height.
\<close>

theorem landscape_keeps_square_page:
  "getImageWidth fakeEnv (4, 4) \<le> getImageHeight fakeEnv (4, 4)
   \<and> forceLayout fakeEnv layoutTypeLandscape 0 (4, 4) initial =
       (Inr (4, 4), emit (GetImageHeight 0) True (emit (GetImageWidth 0) True initial))
   \<and> \<not> getImageHeight fakeEnv (4, 4) < getImageWidth fakeEnv (4, 4)
   \<and> getImageHeight fakeEnv (4, 4) \<le> getImageWidth fakeEnv (4, 4)
   \<and> forceLayout fakeEnv layoutTypePortrait 0 (4, 4) initial =
       (Inr (4, 4), emit (GetImageHeight 0) True (emit (GetImageWidth 0) True initial))
   \<and> \<not> getImageWidth fakeEnv (4, 4) < getImageHeight fakeEnv (4, 4)"
  by (simp add: forceLayout_def Let_def fakeEnv_def layoutTypeLandscape_def layoutTypePortrait_def)

text \<open>
  C2. A page whose width equals its height is not rotated, neither under \<open>LANDSCAPE\<close> nor
  under \<open>PORTRAIT\<close>: both comparisons of the \<open>switch\<close> are strict, so the layout step asks
  for the two dimensions, calls no rotation and passes the wand on as it is.
\<close>

theorem square_page_never_rotated:
  assumes "getImageWidth env mwm = getImageHeight env mwm"
    and "l = layoutTypeLandscape \<or> l = layoutTypePortrait"
  shows "forceLayout env l page mwm st =
           (Inr mwm, emit (GetImageHeight page) True (emit (GetImageWidth page) True st))"
  using assms by (auto simp: forceLayout_def Let_def)

theorem square_page_never_rotated_witness:
  "getImageWidth fakeEnv (4, 4) = getImageHeight fakeEnv (4, 4)
   \<and> forceLayout fakeEnv layoutTypeLandscape 0 (4, 4) initial =
     (Inr (4, 4), emit (GetImageHeight 0) True (emit (GetImageWidth 0) True initial))
   \<and> forceLayout fakeEnv layoutTypePortrait 0 (4, 4) initial =
     (Inr (4, 4), emit (GetImageHeight 0) True (emit (GetImageWidth 0) True initial))"
  using square_page_never_rotated [of fakeEnv "(4, 4)" layoutTypeLandscape 0 initial]
    square_page_never_rotated [of fakeEnv "(4, 4)" layoutTypePortrait 0 initial]
  by (simp add: fakeEnv_def)

text \<open>
  C3. The claim asks that the handles of a page (the extracted one and the flattened one)
  are destroyed before the loop goes on to the next page: \<open>scopedRelease\<close> on the trace.
  The handler does not do this. It registers the two \<open>Destroy\<close> calls with \<open>defer\<close> inside
  the loop, and a \<open>defer\<close> runs when the handler returns. On a document of two pages
  converted with the default parameters the handles of page 0 are still held when the loop
  asks for page 1, and again when it asks for the end of the document.
\<close>

theorem page_handles_outlive_iteration:
  "\<not> scopedRelease []
       (snd (convertHandler fakeEnv \<lparr>reqQuery = Map.empty, reqBody = Some [3, 5, 4, 4]\<rparr>))"
  by (simp add: fakeEnv_two_pages_trace)

text \<open>
  What the handler does instead, on every request and whatever the answer: its trace is a
  part \<open>work\<close> that holds no \<open>Destroy\<close> at all, followed by the \<open>Destroy\<close> of every
  wand acquired in \<open>work\<close> (the document, the extracted pages, the flattened pages), the
  latest acquired first. So each of these wands is released, on success and on failure
  alike, but only at the return. The pixel wand made for a rotation is not among them: the
  handler never destroys it.
\<close>

lemma handles_released_at_return:
  "\<exists>work. snd (convertHandler env req) =
      work @ map (\<lambda>h. (Destroy h, True)) (rev (acquired work)) \<and> working work"
proof (cases "resolveParams env (reqQuery req)")
  case (Inl r)
  then show ?thesis
    by (simp add: handler_rejected)
next
  case (Inr cfg)
  have "balanced (snd (pipeline env cfg (reqBody req)))"
    by (rule balanced_pipeline)
  then show ?thesis
    by (auto simp: handler_resolved [OF Inr] runDeferred_def balanced_def)
qed

text \<open>
  C4. When the parameters are valid and the body decodes to the images \<open>imgs\<close>, an answer
  that carries an archive carries exactly one entry for each image, in page order: entry
  \<open>i\<close> holds the bytes of page \<open>i\<close> and is named by the loop counter at page \<open>i\<close> and the
  extension of the configured format, \<open>jpg\<close> for \<open>JPEG\<close>, \<open>png\<close> for \<open>PNG\<close>, \<open>tiff\<close> for
  \<open>TIFF\<close>. Up to 10000 pages the name of entry \<open>i\<close> is the four decimal digits of \<open>i\<close>
  (\<open>0000\<close>, \<open>0001\<close>, ...), a dot and the extension, and the names increase strictly in
  byte order along the archive. Up to \<open>2 ^ 63\<close> pages, where the counter has not wrapped,
  the name of entry \<open>i\<close> is at least four digits that read as the number \<open>i\<close>, a dot and the
  extension, and no two entries share a name.
\<close>

theorem archive_entries_in_page_order:
  assumes "resolveParams env (reqQuery req) = Inr cfg"
    and "reqBody req = Some inp"
    and "readImageBlob env (density cfg) inp = Some imgs"
    and "payload (fst (convertHandler env req)) = Data a"
  shows "length a = length imgs
    \<and> map fst a = map (\<lambda>i. entryName (of_nat i) (extensionOf (format cfg))) [0..<length imgs]
    \<and> map (\<lambda>e. Some (snd e)) a = map (pageBytes env cfg) imgs
    \<and> (format cfg = ''JPEG'' \<and> extensionOf (format cfg) = ''jpg''
        \<or> format cfg = ''PNG'' \<and> extensionOf (format cfg) = ''png''
        \<or> format cfg = ''TIFF'' \<and> extensionOf (format cfg) = ''tiff'')
    \<and> (length imgs \<le> 10000 \<longrightarrow>
         map fst a =
           map (\<lambda>i. fourDigits i @ ''.'' @ extensionOf (format cfg)) [0..<length imgs]
         \<and> sorted_wrt lexLess (map fst a))
    \<and> (length imgs \<le> 2 ^ 63 \<longrightarrow>
         distinct (map fst a)
         \<and> list_all2 (\<lambda>name i. \<exists>stem. name = stem @ ''.'' @ extensionOf (format cfg)
               \<and> 4 \<le> length stem \<and> list_all isDigit stem \<and> decimalValue stem = i)
             (map fst a) [0..<length imgs])"
proof -
  let ?ext = "extensionOf (format cfg)"
  let ?n = "length imgs"
  from assms have p: "payload (fst (pipeline env cfg (Some inp))) = Data a"
    by (simp add: handler_resolved)
  from pipeline_names [OF p assms(3)]
  have names: "map fst a = map (\<lambda>i. entryName (of_nat i) ?ext) [0..<?n]" .
  then have "length (map fst a) = ?n"
    by simp
  then have len: "length a = ?n"
    by simp
  have bytes: "map (\<lambda>e. Some (snd e)) a = map (pageBytes env cfg) imgs"
    using p assms(3) by (rule pipeline_bytes)
  have fmt: "format cfg = ''JPEG'' \<and> ?ext = ''jpg'' \<or> format cfg = ''PNG'' \<and> ?ext = ''png''
      \<or> format cfg = ''TIFF'' \<and> ?ext = ''tiff''"
    using assms(1) by (rule resolved_format)
  have printed: "entryName (of_nat i) ?ext = sprintf_04d (int i) @ ''.'' @ ?ext"
    if "i < ?n" "?n \<le> 2 ^ 63" for i
  proof -
    from that have "i < 2 ^ 63" by simp
    then show ?thesis by (simp add: entryName_def sint_page)
  qed
  have small: "map fst a = map (\<lambda>i. fourDigits i @ ''.'' @ ?ext) [0..<?n]
      \<and> sorted_wrt lexLess (map fst a)" if n: "?n \<le> 10000"
  proof -
    from n have "?n \<le> 2 ^ 63" by simp
    with printed n have "entryName (of_nat i) ?ext = fourDigits i @ ''.'' @ ?ext" if "i < ?n" for i
      using that by (simp add: sprintf_four)
    with names have eq: "map fst a = map (\<lambda>i. fourDigits i @ ''.'' @ ?ext) [0..<?n]"
      by simp
    with sorted_fourDigits [OF n, of "''.'' @ ?ext"] show ?thesis
      by simp
  qed
  have large: "distinct (map fst a)
      \<and> list_all2 (\<lambda>name i. \<exists>stem. name = stem @ ''.'' @ ?ext
            \<and> 4 \<le> length stem \<and> list_all isDigit stem \<and> decimalValue stem = i)
          (map fst a) [0..<?n]" if n: "?n \<le> 2 ^ 63"
  proof -
    from printed n names
    have eq: "map fst a = map (\<lambda>i. sprintf_04d (int i) @ ''.'' @ ?ext) [0..<?n]"
      by simp
    have "inj_on (\<lambda>i. sprintf_04d (int i) @ ''.'' @ ?ext) (set [0..<?n])"
      by (rule inj_onI) (simp add: sprintf_inj)
    then have d: "distinct (map fst a)"
      unfolding eq by (simp add: distinct_map)
    have "list_all2 (\<lambda>name i. \<exists>stem. name = stem @ ''.'' @ ?ext
            \<and> 4 \<le> length stem \<and> list_all isDigit stem \<and> decimalValue stem = i)
          (map (\<lambda>i. sprintf_04d (int i) @ ''.'' @ ?ext) [0..<?n]) [0..<?n]"
      unfolding list_all2_map1
      by (rule list_all2_same [THEN iffD2]) (use sprintf_decimal in blast)
    with d show ?thesis
      unfolding eq by simp
  qed
  from len names bytes fmt small large show ?thesis
    by blast
qed

theorem archive_entries_in_page_order_witness:
  "resolveParams fakeEnv [''format'' \<mapsto> [''png'']] =
     Inr \<lparr>density = float_300, quality = 85, format = ''PNG'', layout = ''KEEP''\<rparr>
   \<and> readImageBlob fakeEnv float_300 [3, 5, 4, 4] = Some [(3, 5), (4, 4)]
   \<and> payload (fst (convertHandler fakeEnv
         \<lparr>reqQuery = [''format'' \<mapsto> [''png'']], reqBody = Some [3, 5, 4, 4]\<rparr>)) =
       Data [(''0000.png'', [3, 5]), (''0001.png'', [4, 4])]
   \<and> length [(3 :: go_uint, 5 :: go_uint), (4, 4)] \<le> 10000
   \<and> length [(3 :: go_uint, 5 :: go_uint), (4, 4)] \<le> 2 ^ 63
   \<and> map fst [(''0000.png'', [3 :: byte, 5]), (''0001.png'', [4, 4])] =
       map (\<lambda>i. fourDigits i @ ''.'' @ ''png'') [0..<length [(3 :: go_uint, 5 :: go_uint), (4, 4)]]
   \<and> sorted_wrt lexLess (map fst [(''0000.png'', [3 :: byte, 5]), (''0001.png'', [4, 4])])
   \<and> distinct (map fst [(''0000.png'', [3 :: byte, 5]), (''0001.png'', [4, 4])])
   \<and> map (\<lambda>e. Some (snd e)) [(''0000.png'', [3 :: byte, 5]), (''0001.png'', [4, 4])] =
       map (pageBytes fakeEnv
             \<lparr>density = float_300, quality = 85, format = ''PNG'', layout = ''KEEP''\<rparr>)
         [(3, 5), (4, 4)]"
proof -
  let ?q = "[''format'' \<mapsto> [''png'']]"
  let ?cfg = "\<lparr>density = float_300, quality = 85, format = ''PNG'', layout = ''KEEP''\<rparr>"
  let ?req = "\<lparr>reqQuery = ?q, reqBody = Some [3, 5, 4, 4]\<rparr>"
  let ?imgs = "[(3 :: go_uint, 5 :: go_uint), (4, 4)]"
  let ?a = "[(''0000.png'', [3 :: byte, 5]), (''0001.png'', [4, 4])]"
  have params: "resolveParams fakeEnv ?q = Inr ?cfg"
    by code_simp
  then have params': "resolveParams fakeEnv (reqQuery ?req) = Inr ?cfg"
    by simp
  have body: "reqBody ?req = Some [3, 5, 4, 4]"
    by simp
  have decode: "readImageBlob fakeEnv float_300 [3, 5, 4, 4] = Some ?imgs"
    by (simp add: fakeEnv_def)
  then have decode': "readImageBlob fakeEnv (density ?cfg) [3, 5, 4, 4] = Some ?imgs"
    by simp
  have n0: "entryName 0 ''png'' = ''0000.png''" and n1: "entryName 1 ''png'' = ''0001.png''"
    by code_simp+
  have ext: "extensionOf ''PNG'' = ''png''"
    by (simp add: extensionOf_def formatExtensionMap_def)
  have run: "payload (fst (convertHandler fakeEnv ?req)) = Data ?a"
    unfolding handler_resolved [OF params']
    by (simp add: pipeline_def convertPage_def forceLayout_def writePage_def Let_def
        fakeEnv_def layoutTypeLandscape_def layoutTypePortrait_def n0 n1 ext)
  have s1: "length ?imgs \<le> 10000" and s2: "length ?imgs \<le> 2 ^ 63"
    by simp_all
  note t = archive_entries_in_page_order [OF params' body decode' run]
  from t s1 have "map fst ?a =
      map (\<lambda>i. fourDigits i @ ''.'' @ extensionOf (format ?cfg)) [0..<length ?imgs]"
    and sorted: "sorted_wrt lexLess (map fst ?a)"
    by blast+
  then have names: "map fst ?a = map (\<lambda>i. fourDigits i @ ''.'' @ ''png'') [0..<length ?imgs]"
    by (simp only: config.simps ext)
  from t s2 have dist: "distinct (map fst ?a)"
    by blast
  from t have bytes: "map (\<lambda>e. Some (snd e)) ?a = map (pageBytes fakeEnv ?cfg) ?imgs"
    by blast
  from params decode run s1 s2 names sorted dist bytes show ?thesis
    by blast
qed

text \<open>
  C5, as the code has it. Let \<open>v\<close> be the value of the \<open>format\<close> parameter. If \<open>v\<close> is
  equal to \<open>jpeg\<close>, \<open>png\<close> or \<open>tiff\<close> up to the case of its letters, the format check succeeds
  with \<open>JPEG\<close>, \<open>PNG\<close> or \<open>TIFF\<close>, a configuration resolved from the request has that
  format, and the extension used for the entry names is \<open>jpg\<close>, \<open>png\<close> or \<open>tiff\<close>. Any
  other value that is not empty, and that is either made of ASCII bytes or not sent to one of
  the three names by the upper-casing of Unicode, fails the format check: the request is
  answered with status 400 and a JSON error object with no call made at all, and the error
  is \<open>invalid output format\<close> when the density and the quality, which are checked first,
  are valid. A value outside ASCII that the upper-casing of Unicode sends to one of the three
  names passes the format check.
\<close>

theorem format_resolution:
  assumes "Get (reqQuery req) ''format'' = v"
  shows "(equalFoldASCII v ''jpeg'' \<longrightarrow>
            parseFormat env (reqQuery req) = Inr ''JPEG'' \<and> extensionOf ''JPEG'' = ''jpg''
            \<and> (resolveParams env (reqQuery req) = Inr cfg \<longrightarrow> extensionOf (format cfg) = ''jpg''))
    \<and> (equalFoldASCII v ''png'' \<longrightarrow>
            parseFormat env (reqQuery req) = Inr ''PNG'' \<and> extensionOf ''PNG'' = ''png''
            \<and> (resolveParams env (reqQuery req) = Inr cfg \<longrightarrow> extensionOf (format cfg) = ''png''))
    \<and> (equalFoldASCII v ''tiff'' \<longrightarrow>
            parseFormat env (reqQuery req) = Inr ''TIFF'' \<and> extensionOf ''TIFF'' = ''tiff''
            \<and> (resolveParams env (reqQuery req) = Inr cfg \<longrightarrow> extensionOf (format cfg) = ''tiff''))
    \<and> (v \<noteq> [] \<and> \<not> equalFoldASCII v ''jpeg'' \<and> \<not> equalFoldASCII v ''png''
          \<and> \<not> equalFoldASCII v ''tiff''
          \<and> (list_all isASCII v \<or> unicodeToUpper env v \<notin> {''JPEG'', ''PNG'', ''TIFF''}) \<longrightarrow>
            parseFormat env (reqQuery req) = Inl (errorResponse 400 ''invalid output format'')
            \<and> status (fst (convertHandler env req)) = 400
            \<and> (\<exists>m. payload (fst (convertHandler env req)) = JSON [(''error'', m)])
            \<and> snd (convertHandler env req) = []
            \<and> (parseDensity env (reqQuery req) = Inr d \<and> parseQuality env (reqQuery req) = Inr n \<longrightarrow>
                 convertHandler env req =
                   (\<lparr>status = 400, payload = JSON [(''error'', ''invalid output format'')]\<rparr>, [])))
    \<and> (\<not> list_all isASCII v \<and> unicodeToUpper env v \<in> {''JPEG'', ''PNG'', ''TIFF''} \<longrightarrow>
            parseFormat env (reqQuery req) = Inr (unicodeToUpper env v))"
proof -
  let ?q = "reqQuery req"
  let ?names = "{''JPEG'', ''PNG'', ''TIFF''}"
  have ext: "extensionOf ''JPEG'' = ''jpg''" "extensionOf ''PNG'' = ''png''"
    "extensionOf ''TIFF'' = ''tiff''"
    by (simp_all add: extensionOf_def formatExtensionMap_def)
  have ok: "parseFormat env ?q = Inr u \<and> (resolveParams env ?q = Inr cfg \<longrightarrow> format cfg = u)"
    if "ToUpper env v = u" and "u \<in> ?names" for u
  proof -
    from that have "v \<noteq> []"
      by (auto simp: ToUpper_def)
    with that assms have p: "parseFormat env ?q = Inr u"
      by (auto simp: parseFormat_def Let_def formatExtensionMap_None)
    then have "resolveParams env ?q = Inr cfg \<Longrightarrow> format cfg = u"
      by (auto simp: resolveParams_def split: sum.splits)
    with p show ?thesis
      by simp
  qed
  have up: "ToUpper env v = map upperASCII w" if "equalFoldASCII v w" "list_all lowerLetter w" for w
    using equalFoldASCII_ToUpper [OF that, of env] by simp
  have a: "equalFoldASCII v ''jpeg'' \<longrightarrow>
      parseFormat env ?q = Inr ''JPEG'' \<and> extensionOf ''JPEG'' = ''jpg''
      \<and> (resolveParams env ?q = Inr cfg \<longrightarrow> extensionOf (format cfg) = ''jpg'')"
    using ok [of "''JPEG''"] ext(1) up [of "''jpeg''"] format_words(1,13)
    by simp
  have b: "equalFoldASCII v ''png'' \<longrightarrow>
      parseFormat env ?q = Inr ''PNG'' \<and> extensionOf ''PNG'' = ''png''
      \<and> (resolveParams env ?q = Inr cfg \<longrightarrow> extensionOf (format cfg) = ''png'')"
    using ok [of "''PNG''"] ext(2) up [of "''png''"] format_words(2,14)
    by simp
  have c: "equalFoldASCII v ''tiff'' \<longrightarrow>
      parseFormat env ?q = Inr ''TIFF'' \<and> extensionOf ''TIFF'' = ''tiff''
      \<and> (resolveParams env ?q = Inr cfg \<longrightarrow> extensionOf (format cfg) = ''tiff'')"
    using ok [of "''TIFF''"] ext(3) up [of "''tiff''"] format_words(3,15)
    by simp
  have d: "v \<noteq> [] \<and> \<not> equalFoldASCII v ''jpeg'' \<and> \<not> equalFoldASCII v ''png''
        \<and> \<not> equalFoldASCII v ''tiff''
        \<and> (list_all isASCII v \<or> unicodeToUpper env v \<notin> ?names) \<longrightarrow>
      parseFormat env ?q = Inl (errorResponse 400 ''invalid output format'')
      \<and> status (fst (convertHandler env req)) = 400
      \<and> (\<exists>m. payload (fst (convertHandler env req)) = JSON [(''error'', m)])
      \<and> snd (convertHandler env req) = []
      \<and> (parseDensity env ?q = Inr d \<and> parseQuality env ?q = Inr n \<longrightarrow>
           convertHandler env req =
             (\<lparr>status = 400, payload = JSON [(''error'', ''invalid output format'')]\<rparr>, []))"
  proof (intro impI)
    assume h: "v \<noteq> [] \<and> \<not> equalFoldASCII v ''jpeg'' \<and> \<not> equalFoldASCII v ''png''
        \<and> \<not> equalFoldASCII v ''tiff''
        \<and> (list_all isASCII v \<or> unicodeToUpper env v \<notin> ?names)"
    have out: "ToUpper env v \<notin> ?names"
    proof (cases "list_all isASCII v")
      case True
      show ?thesis
      proof
        assume u: "ToUpper env v \<in> ?names"
        then have "list_all upperLetter (ToUpper env v)"
          using format_words(4-6) by auto
        from ToUpper_equalFoldASCII [OF True refl this]
        have "map lowerASCII v = map lowerASCII (ToUpper env v)" .
        with u have "equalFoldASCII v ''jpeg'' \<or> equalFoldASCII v ''png''
            \<or> equalFoldASCII v ''tiff''"
          using format_words(7-12) by (auto simp: equalFoldASCII_def)
        with h show False
          by blast
      qed
    next
      case False
      with h show ?thesis
        by (simp add: ToUpper_def)
    qed
    with h assms have none: "formatExtensionMap (ToUpper env (Get ?q ''format'')) = None"
      and ne: "Get ?q ''format'' \<noteq> []"
      by (simp_all add: formatExtensionMap_None)
    then have p: "parseFormat env ?q =
        Inl (errorResponse StatusBadRequest ''invalid output format'')"
      by (simp add: parseFormat_Inl)
    from ne none have "invalidParameters env ?q"
      by (simp add: invalidParameters_def)
    from resolveParams_invalid [OF this] obtain m
      where "resolveParams env ?q = Inl (errorResponse StatusBadRequest m)" ..
    then have r: "convertHandler env req = (errorResponse StatusBadRequest m, [])"
      by (rule handler_rejected)
    have last: "convertHandler env req =
        (\<lparr>status = 400, payload = JSON [(''error'', ''invalid output format'')]\<rparr>, [])"
      if "parseDensity env ?q = Inr d \<and> parseQuality env ?q = Inr n"
    proof -
      from that p have "resolveParams env ?q =
          Inl (errorResponse StatusBadRequest ''invalid output format'')"
        by (simp add: resolveParams_def)
      from handler_rejected [OF this] show ?thesis
        by (simp add: errorResponse_def StatusBadRequest_def)
    qed
    from p r last show "parseFormat env ?q = Inl (errorResponse 400 ''invalid output format'')
      \<and> status (fst (convertHandler env req)) = 400
      \<and> (\<exists>m. payload (fst (convertHandler env req)) = JSON [(''error'', m)])
      \<and> snd (convertHandler env req) = []
      \<and> (parseDensity env ?q = Inr d \<and> parseQuality env ?q = Inr n \<longrightarrow>
           convertHandler env req =
             (\<lparr>status = 400, payload = JSON [(''error'', ''invalid output format'')]\<rparr>, []))"
      by (simp add: errorResponse_def StatusBadRequest_def)
  qed
  have e: "\<not> list_all isASCII v \<and> unicodeToUpper env v \<in> ?names \<longrightarrow>
      parseFormat env ?q = Inr (unicodeToUpper env v)"
  proof
    assume h: "\<not> list_all isASCII v \<and> unicodeToUpper env v \<in> ?names"
    then have "ToUpper env v = unicodeToUpper env v"
      by (simp add: ToUpper_def)
    with h ok [of "unicodeToUpper env v"] show "parseFormat env ?q = Inr (unicodeToUpper env v)"
      by simp
  qed
  from a b c d e show ?thesis
    by blast
qed

theorem format_resolution_witness:
  "equalFoldASCII ''jPeG'' ''jpeg''
   \<and> resolveParams fakeEnv [''format'' \<mapsto> [''jPeG'']] =
       Inr \<lparr>density = float_300, quality = 85, format = ''JPEG'', layout = ''KEEP''\<rparr>
   \<and> parseFormat fakeEnv [''format'' \<mapsto> [''jPeG'']] = Inr ''JPEG''
   \<and> extensionOf (format \<lparr>density = float_300, quality = 85, format = ''JPEG'',
        layout = ''KEEP''\<rparr>) = ''jpg''
   \<and> equalFoldASCII ''Png'' ''png''
   \<and> parseFormat fakeEnv [''format'' \<mapsto> [''Png'']] = Inr ''PNG''
   \<and> extensionOf ''PNG'' = ''png''
   \<and> equalFoldASCII ''TIFF'' ''tiff''
   \<and> parseFormat fakeEnv [''format'' \<mapsto> [''TIFF'']] = Inr ''TIFF''
   \<and> extensionOf ''TIFF'' = ''tiff''
   \<and> ''bogus'' \<noteq> []
   \<and> \<not> equalFoldASCII ''bogus'' ''jpeg''
   \<and> \<not> equalFoldASCII ''bogus'' ''png''
   \<and> \<not> equalFoldASCII ''bogus'' ''tiff''
   \<and> list_all isASCII ''bogus''
   \<and> parseDensity fakeEnv [''format'' \<mapsto> [''bogus'']] = Inr float_300
   \<and> parseQuality fakeEnv [''format'' \<mapsto> [''bogus'']] = Inr 85
   \<and> convertHandler fakeEnv \<lparr>reqQuery = [''format'' \<mapsto> [''bogus'']], reqBody = Some [3, 5]\<rparr> =
       (\<lparr>status = 400, payload = JSON [(''error'', ''invalid output format'')]\<rparr>, [])
   \<and> \<not> list_all isASCII dotlessTiff
   \<and> unicodeToUpper goEnv dotlessTiff \<in> {''JPEG'', ''PNG'', ''TIFF''}
   \<and> parseFormat goEnv [''format'' \<mapsto> [dotlessTiff]] = Inr (unicodeToUpper goEnv dotlessTiff)"
proof -
  let ?cfg = "\<lparr>density = float_300, quality = 85, format = ''JPEG'', layout = ''KEEP''\<rparr>"
  let ?r1 = "\<lparr>reqQuery = [''format'' \<mapsto> [''jPeG'']], reqBody = Some [3 :: byte, 5]\<rparr>"
  let ?r2 = "\<lparr>reqQuery = [''format'' \<mapsto> [''Png'']], reqBody = Some [3 :: byte, 5]\<rparr>"
  let ?r3 = "\<lparr>reqQuery = [''format'' \<mapsto> [''TIFF'']], reqBody = Some [3 :: byte, 5]\<rparr>"
  let ?r4 = "\<lparr>reqQuery = [''format'' \<mapsto> [''bogus'']], reqBody = Some [3 :: byte, 5]\<rparr>"
  let ?r5 = "\<lparr>reqQuery = [''format'' \<mapsto> [dotlessTiff]], reqBody = Some [3 :: byte, 5]\<rparr>"
  have g: "Get (reqQuery ?r1) ''format'' = ''jPeG''" "Get (reqQuery ?r2) ''format'' = ''Png''"
    "Get (reqQuery ?r3) ''format'' = ''TIFF''" "Get (reqQuery ?r4) ''format'' = ''bogus''"
    "Get (reqQuery ?r5) ''format'' = dotlessTiff"
    by (simp_all add: Get_def)
  have c1: "equalFoldASCII ''jPeG'' ''jpeg''"
    and c2: "equalFoldASCII ''Png'' ''png''"
    and c3: "equalFoldASCII ''TIFF'' ''tiff''"
    and c4: "\<not> equalFoldASCII ''bogus'' ''jpeg''"
      "\<not> equalFoldASCII ''bogus'' ''png''"
      "\<not> equalFoldASCII ''bogus'' ''tiff''"
    and a4: "list_all isASCII ''bogus''"
    and a5: "\<not> list_all isASCII dotlessTiff"
    by code_simp+
  have u5: "unicodeToUpper goEnv dotlessTiff \<in> {''JPEG'', ''PNG'', ''TIFF''}"
    by (simp add: goEnv_def)
  have p1: "resolveParams fakeEnv (reqQuery ?r1) = Inr ?cfg"
    by code_simp
  have p4: "parseDensity fakeEnv (reqQuery ?r4) = Inr float_300"
    "parseQuality fakeEnv (reqQuery ?r4) = Inr 85"
    by (simp_all add: parseDensity_def parseQuality_def Get_def)
  have ne: "''bogus'' \<noteq> []"
    by simp
  from format_resolution [OF g(1), of fakeEnv ?cfg] c1 p1
  have t1: "parseFormat fakeEnv (reqQuery ?r1) = Inr ''JPEG''"
    "extensionOf (format ?cfg) = ''jpg''"
    by blast+
  from format_resolution [OF g(2), of fakeEnv] c2
  have t2: "parseFormat fakeEnv (reqQuery ?r2) = Inr ''PNG''" "extensionOf ''PNG'' = ''png''"
    by blast+
  from format_resolution [OF g(3), of fakeEnv] c3
  have t3: "parseFormat fakeEnv (reqQuery ?r3) = Inr ''TIFF''" "extensionOf ''TIFF'' = ''tiff''"
    by blast+
  from format_resolution [OF g(4), of fakeEnv _ float_300 85] c4 a4 p4 ne
  have t4: "convertHandler fakeEnv ?r4 =
      (\<lparr>status = 400, payload = JSON [(''error'', ''invalid output format'')]\<rparr>, [])"
    by blast
  from format_resolution [OF g(5), of goEnv] a5 u5
  have t5: "parseFormat goEnv (reqQuery ?r5) = Inr (unicodeToUpper goEnv dotlessTiff)"
    by blast
  from c1 c2 c3 c4 a4 a5 u5 p1 p4 ne t1 t2 t3 t4 t5 show ?thesis
    by simp
qed

text \<open>
  As stated the claim fails twice. The value \<open>t%C4%B1ff\<close> is not equal to \<open>tiff\<close> up to
  case, yet Go's upper-casing sends it to \<open>TIFF\<close> and the request is converted: the answer
  is status 200 with the entry \<open>0000.tiff\<close>. And the value \<open>bogus\<close> sent along with the
  density \<open>abc\<close> is answered with \<open>invalid density\<close>, since the density is checked first.
\<close>

theorem dotless_tiff_is_accepted:
  "dotlessTiff \<noteq> []
   \<and> \<not> equalFoldASCII dotlessTiff ''jpeg''
   \<and> \<not> equalFoldASCII dotlessTiff ''png''
   \<and> \<not> equalFoldASCII dotlessTiff ''tiff''
   \<and> fst (convertHandler goEnv
        \<lparr>reqQuery = [''format'' \<mapsto> [dotlessTiff]], reqBody = Some [3, 5]\<rparr>) =
       \<lparr>status = 200, payload = Data [(''0000.tiff'', [3, 5])]\<rparr>
   \<and> ''bogus'' \<noteq> []
   \<and> \<not> equalFoldASCII ''bogus'' ''jpeg''
   \<and> \<not> equalFoldASCII ''bogus'' ''png''
   \<and> \<not> equalFoldASCII ''bogus'' ''tiff''
   \<and> convertHandler fakeEnv
        \<lparr>reqQuery = [''density'' \<mapsto> [''abc''], ''format'' \<mapsto> [''bogus'']], reqBody = Some [3, 5]\<rparr> =
       (\<lparr>status = 400, payload = JSON [(''error'', ''invalid density'')]\<rparr>, [])"
proof -
  let ?r1 = "\<lparr>reqQuery = [''format'' \<mapsto> [dotlessTiff]], reqBody = Some [3 :: byte, 5]\<rparr>"
  let ?r2 = "\<lparr>reqQuery = [''density'' \<mapsto> [''abc''], ''format'' \<mapsto> [''bogus'']],
    reqBody = Some [3 :: byte, 5]\<rparr>"
  let ?cfg = "\<lparr>density = float_300, quality = 85, format = ''TIFF'', layout = ''KEEP''\<rparr>"
  have c: "dotlessTiff \<noteq> []" "\<not> equalFoldASCII dotlessTiff ''jpeg''"
    "\<not> equalFoldASCII dotlessTiff ''png''" "\<not> equalFoldASCII dotlessTiff ''tiff''"
    "''bogus'' \<noteq> []" "\<not> equalFoldASCII ''bogus'' ''jpeg''"
    "\<not> equalFoldASCII ''bogus'' ''png''" "\<not> equalFoldASCII ''bogus'' ''tiff''"
    by code_simp+
  have na: "\<not> list_all isASCII dotlessTiff"
    by code_simp
  then have up: "ToUpper goEnv dotlessTiff = ''TIFF''"
    by (simp add: ToUpper_def goEnv_def)
  have p1: "resolveParams goEnv (reqQuery ?r1) = Inr ?cfg"
    using c(1)
    by (simp add: resolveParams_def parseDensity_def parseQuality_def parseFormat_def
        parseLayout_def Get_def layoutTypeKeep_def up formatExtensionMap_def)
  have n0: "entryName 0 ''tiff'' = ''0000.tiff''"
    by code_simp
  have ext: "extensionOf ''TIFF'' = ''tiff''"
    by (simp add: extensionOf_def formatExtensionMap_def)
  have r1: "fst (convertHandler goEnv ?r1) =
      \<lparr>status = 200, payload = Data [(''0000.tiff'', [3, 5])]\<rparr>"
    unfolding handler_resolved [OF p1]
    by (simp add: pipeline_def convertPage_def forceLayout_def writePage_def Let_def
        goEnv_def fakeEnv_def layoutTypeLandscape_def layoutTypePortrait_def n0 ext
        StatusOK_def)
  have "resolveParams fakeEnv (reqQuery ?r2) =
      Inl (errorResponse StatusBadRequest ''invalid density'')"
    by (simp add: resolveParams_def parseDensity_def Get_def fakeEnv_def sampleFloat_def)
  from handler_rejected [OF this] have r2: "convertHandler fakeEnv ?r2 =
      (\<lparr>status = 400, payload = JSON [(''error'', ''invalid density'')]\<rparr>, [])"
    by (simp add: errorResponse_def StatusBadRequest_def)
  from c r1 r2 show ?thesis
    by blast
qed



text \<open>
  C7, as the code has it. A density string that is not empty and that
  \<open>strconv.ParseFloat\<close> accepts becomes the density of the configuration, and once the body
  is read the engine is asked for that value as both the horizontal and the vertical
  resolution. A density string that is not empty and that \<open>ParseFloat\<close> rejects ends the
  request with status 400 and \<open>{"error": "invalid density"}\<close> before anything else is
  called. The empty string is not passed to \<open>ParseFloat\<close> at all.
\<close>

theorem density_resolution:
  "(Get (reqQuery req) ''density'' \<noteq> []
      \<and> parseFloat env (Get (reqQuery req) ''density'') = Some d
      \<and> resolveParams env (reqQuery req) = Inr cfg \<and> reqBody req = Some inp \<longrightarrow>
      parseDensity env (reqQuery req) = Inr d
      \<and> density cfg = d
      \<and> (SetResolution d d, setResolution env d d) \<in> set (snd (convertHandler env req)))
   \<and> (Get (reqQuery req) ''density'' \<noteq> []
      \<and> parseFloat env (Get (reqQuery req) ''density'') = None \<longrightarrow>
      resolveParams env (reqQuery req) = Inl (errorResponse 400 ''invalid density'')
      \<and> convertHandler env req =
          (\<lparr>status = 400, payload = JSON [(''error'', ''invalid density'')]\<rparr>, []))"
proof (intro conjI impI)
  assume a: "Get (reqQuery req) ''density'' \<noteq> []
      \<and> parseFloat env (Get (reqQuery req) ''density'') = None"
  then have "parseDensity env (reqQuery req) = Inl (errorResponse StatusBadRequest ''invalid density'')"
    by (simp add: parseDensity_Inl)
  then have r: "resolveParams env (reqQuery req) = Inl (errorResponse StatusBadRequest ''invalid density'')"
    by (simp add: resolveParams_Inl)
  then show "resolveParams env (reqQuery req) = Inl (errorResponse 400 ''invalid density'')"
    by (simp add: StatusBadRequest_def)
  from handler_rejected [OF r] show "convertHandler env req =
      (\<lparr>status = 400, payload = JSON [(''error'', ''invalid density'')]\<rparr>, [])"
    by (simp add: errorResponse_def StatusBadRequest_def)
next
  assume a: "Get (reqQuery req) ''density'' \<noteq> []
      \<and> parseFloat env (Get (reqQuery req) ''density'') = Some d
      \<and> resolveParams env (reqQuery req) = Inr cfg \<and> reqBody req = Some inp"
  then show pd: "parseDensity env (reqQuery req) = Inr d"
    by (simp add: parseDensity_def)
  with a show d: "density cfg = d"
    by (auto simp: resolveParams_def split: sum.splits)
  from a have "convertHandler env req =
      (fst (pipeline env cfg (Some inp)), runDeferred (snd (pipeline env cfg (Some inp))))"
    by (simp add: handler_resolved)
  with pipeline_sets_resolution [of cfg env inp] d
  show "(SetResolution d d, setResolution env d d) \<in> set (snd (convertHandler env req))"
    by (simp add: runDeferred_def)
qed

theorem density_resolution_witness:
  "Get [''density'' \<mapsto> [''72'']] ''density'' \<noteq> []
   \<and> parseFloat fakeEnv (Get [''density'' \<mapsto> [''72'']] ''density'') =
       Some (Float64 0x4052000000000000)
   \<and> resolveParams fakeEnv [''density'' \<mapsto> [''72'']] =
       Inr \<lparr>density = Float64 0x4052000000000000, quality = 85, format = ''JPEG'',
            layout = ''KEEP''\<rparr>
   \<and> parseDensity fakeEnv [''density'' \<mapsto> [''72'']] = Inr (Float64 0x4052000000000000)
   \<and> (SetResolution (Float64 0x4052000000000000) (Float64 0x4052000000000000),
        setResolution fakeEnv (Float64 0x4052000000000000) (Float64 0x4052000000000000))
       \<in> set (snd (convertHandler fakeEnv
           \<lparr>reqQuery = [''density'' \<mapsto> [''72'']], reqBody = Some [3, 5]\<rparr>))
   \<and> Get [''density'' \<mapsto> [''abc'']] ''density'' \<noteq> []
   \<and> parseFloat fakeEnv (Get [''density'' \<mapsto> [''abc'']] ''density'') = None
   \<and> convertHandler fakeEnv \<lparr>reqQuery = [''density'' \<mapsto> [''abc'']], reqBody = Some [3, 5]\<rparr> =
       (\<lparr>status = 400, payload = JSON [(''error'', ''invalid density'')]\<rparr>, [])"
proof -
  let ?q1 = "[''density'' \<mapsto> [''72'']]"
  let ?q2 = "[''density'' \<mapsto> [''abc'']]"
  let ?d = "Float64 0x4052000000000000"
  let ?cfg = "\<lparr>density = ?d, quality = 85, format = ''JPEG'', layout = ''KEEP''\<rparr>"
  let ?r1 = "\<lparr>reqQuery = ?q1, reqBody = Some [3, 5]\<rparr>"
  let ?r2 = "\<lparr>reqQuery = ?q2, reqBody = Some [3, 5]\<rparr>"
  have g1: "Get ?q1 ''density'' \<noteq> []" and g2: "Get ?q2 ''density'' \<noteq> []"
    by (simp_all add: Get_def)
  have f1: "parseFloat fakeEnv (Get ?q1 ''density'') = Some ?d"
    and f2: "parseFloat fakeEnv (Get ?q2 ''density'') = None"
    by (simp_all add: Get_def fakeEnv_def sampleFloat_def)
  have p1: "resolveParams fakeEnv ?q1 = Inr ?cfg"
    by (simp add: resolveParams_def parseDensity_def parseQuality_def parseFormat_def
        parseLayout_def Get_def layoutTypeKeep_def fakeEnv_def sampleFloat_def)
  from density_resolution [of ?r1 fakeEnv ?d ?cfg "[3, 5]"] density_resolution [of ?r2 fakeEnv]
    g1 g2 f1 f2 p1
  show ?thesis
    by simp
qed

text \<open>
  Without "not empty" the claim fails: the empty string is a density string that
  \<open>ParseFloat\<close> rejects, and the request \<open>?density=\<close> is not rejected: it is converted at the
  default density.
\<close>

theorem empty_density_is_not_rejected:
  "Get [''density'' \<mapsto> ['''']] ''density'' = []
   \<and> parseFloat fakeEnv [] = None
   \<and> resolveParams fakeEnv [''density'' \<mapsto> ['''']] =
       Inr \<lparr>density = float_300, quality = 85, format = ''JPEG'', layout = ''KEEP''\<rparr>
   \<and> status (fst (convertHandler fakeEnv
        \<lparr>reqQuery = [''density'' \<mapsto> ['''']], reqBody = Some [3, 5]\<rparr>)) = 200"
proof -
  let ?req = "\<lparr>reqQuery = [''density'' \<mapsto> ['''']], reqBody = Some [3, 5]\<rparr>"
  let ?cfg = "\<lparr>density = float_300, quality = 85, format = ''JPEG'', layout = ''KEEP''\<rparr>"
  have p: "resolveParams fakeEnv [''density'' \<mapsto> ['''']] = Inr ?cfg"
    by (simp add: resolveParams_def parseDensity_def parseQuality_def parseFormat_def
        parseLayout_def Get_def layoutTypeKeep_def)
  then have p': "resolveParams fakeEnv (reqQuery ?req) = Inr ?cfg"
    by simp
  have "status (fst (convertHandler fakeEnv ?req)) = 200"
    unfolding handler_resolved [OF p']
    by (simp add: pipeline_def convertPage_def forceLayout_def writePage_def Let_def
        fakeEnv_def layoutTypeLandscape_def layoutTypePortrait_def StatusOK_def)
  with p show ?thesis
    by (simp add: Get_def fakeEnv_def sampleFloat_def)
qed

text \<open>
  C8. The structure of the archive depends on the configuration and on the number of
  pages only. Two runs on the same request that resolve the same configuration and decode
  the body into equally many pages, and that both answer with an archive, give archives
  with the same number of entries and the same entry names in the same order, whatever
  else the engines of the two runs do. Two runs with one engine are the case
  \<open>env1 = env2\<close>.
\<close>

theorem archive_structure_deterministic:
  assumes "resolveParams env1 (reqQuery req) = Inr cfg"
    and "resolveParams env2 (reqQuery req) = Inr cfg"
    and "reqBody req = Some inp"
    and "readImageBlob env1 (density cfg) inp = Some imgs1"
    and "readImageBlob env2 (density cfg) inp = Some imgs2"
    and "length imgs1 = length imgs2"
    and "payload (fst (convertHandler env1 req)) = Data a1"
    and "payload (fst (convertHandler env2 req)) = Data a2"
  shows "length a1 = length a2 \<and> map fst a1 = map fst a2"
proof -
  from assms(1,3,7) have "payload (fst (pipeline env1 cfg (Some inp))) = Data a1"
    by (simp add: handler_resolved)
  from pipeline_names [OF this assms(4)] have n1: "map fst a1 =
      map (\<lambda>i. entryName (of_nat i) (extensionOf (format cfg))) [0..<length imgs1]" .
  from assms(2,3,8) have "payload (fst (pipeline env2 cfg (Some inp))) = Data a2"
    by (simp add: handler_resolved)
  from pipeline_names [OF this assms(5)] have n2: "map fst a2 =
      map (\<lambda>i. entryName (of_nat i) (extensionOf (format cfg))) [0..<length imgs2]" .
  from n1 n2 assms(6) have eq: "map fst a1 = map fst a2"
    by simp
  then have "length a1 = length a2"
    by (rule map_eq_imp_length_eq)
  with eq show ?thesis
    by simp
qed

theorem archive_structure_deterministic_witness:
  "resolveParams fakeEnv Map.empty =
     Inr \<lparr>density = float_300, quality = 85, format = ''JPEG'', layout = ''KEEP''\<rparr>
   \<and> resolveParams (fakeEnv\<lparr>getImageBlob := \<lambda>w. Some [7]\<rparr>) Map.empty =
     Inr \<lparr>density = float_300, quality = 85, format = ''JPEG'', layout = ''KEEP''\<rparr>
   \<and> payload (fst (convertHandler fakeEnv
         \<lparr>reqQuery = Map.empty, reqBody = Some [3, 5, 4, 4]\<rparr>)) =
       Data [(''0000.jpg'', [3, 5]), (''0001.jpg'', [4, 4])]
   \<and> payload (fst (convertHandler (fakeEnv\<lparr>getImageBlob := \<lambda>w. Some [7]\<rparr>)
         \<lparr>reqQuery = Map.empty, reqBody = Some [3, 5, 4, 4]\<rparr>)) =
       Data [(''0000.jpg'', [7]), (''0001.jpg'', [7])]
   \<and> length [(''0000.jpg'', [3 :: byte, 5]), (''0001.jpg'', [4, 4])] =
       length [(''0000.jpg'', [7 :: byte]), (''0001.jpg'', [7])]
   \<and> map fst [(''0000.jpg'', [3 :: byte, 5]), (''0001.jpg'', [4, 4])] =
       map fst [(''0000.jpg'', [7 :: byte]), (''0001.jpg'', [7])]"
proof -
  let ?env2 = "fakeEnv\<lparr>getImageBlob := \<lambda>w. Some [7]\<rparr>"
  let ?req = "\<lparr>reqQuery = Map.empty, reqBody = Some [3, 5, 4, 4]\<rparr>"
  let ?cfg = "\<lparr>density = float_300, quality = 85, format = ''JPEG'', layout = ''KEEP''\<rparr>"
  let ?imgs = "[(3 :: go_uint, 5 :: go_uint), (4, 4)]"
  have p1: "resolveParams fakeEnv Map.empty = Inr ?cfg"
    and p2: "resolveParams ?env2 Map.empty = Inr ?cfg"
    by (simp_all add: resolveParams_def parseDensity_def parseQuality_def parseFormat_def
        parseLayout_def Get_def layoutTypeKeep_def)
  then have p1': "resolveParams fakeEnv (reqQuery ?req) = Inr ?cfg"
    and p2': "resolveParams ?env2 (reqQuery ?req) = Inr ?cfg"
    by simp_all
  have body: "reqBody ?req = Some [3, 5, 4, 4]"
    by simp
  have d1: "readImageBlob fakeEnv (density ?cfg) [3, 5, 4, 4] = Some ?imgs"
    and d2: "readImageBlob ?env2 (density ?cfg) [3, 5, 4, 4] = Some ?imgs"
    by (simp_all add: fakeEnv_def)
  have n0: "entryName 0 ''jpg'' = ''0000.jpg''" and n1: "entryName 1 ''jpg'' = ''0001.jpg''"
    by code_simp+
  have ext: "extensionOf ''JPEG'' = ''jpg''"
    by (simp add: extensionOf_def formatExtensionMap_def)
  have r1: "payload (fst (convertHandler fakeEnv ?req)) =
      Data [(''0000.jpg'', [3, 5]), (''0001.jpg'', [4, 4])]"
    unfolding handler_resolved [OF p1']
    by (simp add: pipeline_def convertPage_def forceLayout_def writePage_def Let_def
        fakeEnv_def layoutTypeLandscape_def layoutTypePortrait_def n0 n1 ext)
  have r2: "payload (fst (convertHandler ?env2 ?req)) =
      Data [(''0000.jpg'', [7]), (''0001.jpg'', [7])]"
    unfolding handler_resolved [OF p2']
    by (simp add: pipeline_def convertPage_def forceLayout_def writePage_def Let_def
        fakeEnv_def layoutTypeLandscape_def layoutTypePortrait_def n0 n1 ext)
  from archive_structure_deterministic [OF p1' p2' body d1 d2 refl r1 r2] p1 p2 r1 r2
  show ?thesis
    by blast
qed

text \<open>
  C9. A parameter given with the empty string as its (first) value is read exactly like a
  parameter that is absent: the configuration resolved, or the error, is the same, and so
  is the whole answer of the handler. A parameter whose value is empty takes its default:
  the density 300.0, the quality 85, the format \<open>JPEG\<close>, the layout \<open>KEEP\<close>.
\<close>

theorem empty_value_is_absent:
  "resolveParams env (q(k \<mapsto> [] # vs)) = resolveParams env (q(k := None))
   \<and> convertHandler env \<lparr>reqQuery = q(k \<mapsto> [] # vs), reqBody = b\<rparr> =
       convertHandler env \<lparr>reqQuery = q(k := None), reqBody = b\<rparr>
   \<and> (Get q ''density'' = [] \<longrightarrow> parseDensity env q = Inr float_300)
   \<and> (Get q ''quality'' = [] \<longrightarrow> parseQuality env q = Inr 85)
   \<and> (Get q ''format'' = [] \<longrightarrow> parseFormat env q = Inr ''JPEG'')
   \<and> (Get q ''layout'' = [] \<longrightarrow> parseLayout env q = Inr ''KEEP'')
   \<and> (Get q ''density'' = [] \<and> Get q ''quality'' = [] \<and> Get q ''format'' = [] \<and>
        Get q ''layout'' = [] \<longrightarrow>
        resolveParams env q =
          Inr \<lparr>density = float_300, quality = 85, format = ''JPEG'', layout = ''KEEP''\<rparr>)"
proof -
  have r: "resolveParams env (q(k \<mapsto> [] # vs)) = resolveParams env (q(k := None))"
    by (rule resolveParams_Get) (rule Get_empty_value)
  then have "convertHandler env \<lparr>reqQuery = q(k \<mapsto> [] # vs), reqBody = b\<rparr> =
      convertHandler env \<lparr>reqQuery = q(k := None), reqBody = b\<rparr>"
    by (intro handler_query) simp_all
  with r show ?thesis
    by (simp add: resolveParams_def parseDensity_def parseQuality_def parseFormat_def
        parseLayout_def layoutTypeKeep_def)
qed

theorem empty_value_is_absent_witness:
  "resolveParams fakeEnv ([''quality'' \<mapsto> [''abc'']](''quality'' \<mapsto> [] # [''abc''])) =
     resolveParams fakeEnv ([''quality'' \<mapsto> [''abc'']](''quality'' := None))
   \<and> Get [''density'' \<mapsto> [''''], ''quality'' \<mapsto> [''''], ''format'' \<mapsto> [''''], ''layout'' \<mapsto> ['''']]
       ''density'' = []
   \<and> Get [''density'' \<mapsto> [''''], ''quality'' \<mapsto> [''''], ''format'' \<mapsto> [''''], ''layout'' \<mapsto> ['''']]
       ''quality'' = []
   \<and> Get [''density'' \<mapsto> [''''], ''quality'' \<mapsto> [''''], ''format'' \<mapsto> [''''], ''layout'' \<mapsto> ['''']]
       ''format'' = []
   \<and> Get [''density'' \<mapsto> [''''], ''quality'' \<mapsto> [''''], ''format'' \<mapsto> [''''], ''layout'' \<mapsto> ['''']]
       ''layout'' = []
   \<and> parseDensity fakeEnv
       [''density'' \<mapsto> [''''], ''quality'' \<mapsto> [''''], ''format'' \<mapsto> [''''], ''layout'' \<mapsto> ['''']] =
       Inr float_300
   \<and> parseQuality fakeEnv
       [''density'' \<mapsto> [''''], ''quality'' \<mapsto> [''''], ''format'' \<mapsto> [''''], ''layout'' \<mapsto> ['''']] =
       Inr 85
   \<and> parseFormat fakeEnv
       [''density'' \<mapsto> [''''], ''quality'' \<mapsto> [''''], ''format'' \<mapsto> [''''], ''layout'' \<mapsto> ['''']] =
       Inr ''JPEG''
   \<and> parseLayout fakeEnv
       [''density'' \<mapsto> [''''], ''quality'' \<mapsto> [''''], ''format'' \<mapsto> [''''], ''layout'' \<mapsto> ['''']] =
       Inr ''KEEP''
   \<and> resolveParams fakeEnv
       [''density'' \<mapsto> [''''], ''quality'' \<mapsto> [''''], ''format'' \<mapsto> [''''], ''layout'' \<mapsto> ['''']] =
       Inr \<lparr>density = float_300, quality = 85, format = ''JPEG'', layout = ''KEEP''\<rparr>"
proof -
  let ?q = "[''density'' \<mapsto> [''''], ''quality'' \<mapsto> [''''], ''format'' \<mapsto> [''''], ''layout'' \<mapsto> ['''']]"
  have g: "Get ?q ''density'' = []" "Get ?q ''quality'' = []" "Get ?q ''format'' = []"
    "Get ?q ''layout'' = []"
    by (simp_all add: Get_def)
  from empty_value_is_absent [of fakeEnv "[''quality'' \<mapsto> [''abc'']]" "''quality''" "[''abc'']"]
    empty_value_is_absent [of fakeEnv ?q] g
  show ?thesis
    by blast
qed

text \<open>
  C10. When the call that serializes a page, \<open>GetImageBlob\<close>, returns an error, the answer
  is status 500 with the JSON body \<open>{"error": "failed to set output format"}\<close>; the answer
  to an error of \<open>SetImageFormat\<close> is the same one, so the two failures cannot be told
  apart by the response.
\<close>

theorem serialization_failure_reported_as_format_failure:
  "((GetImageBlob p, False) \<in> set (snd (convertHandler env req)) \<longrightarrow>
      fst (convertHandler env req) =
        \<lparr>status = 500, payload = JSON [(''error'', ''failed to set output format'')]\<rparr>)
   \<and> ((SetImageFormat p' f, False) \<in> set (snd (convertHandler env req)) \<longrightarrow>
      fst (convertHandler env req) =
        \<lparr>status = 500, payload = JSON [(''error'', ''failed to set output format'')]\<rparr>)"
proof -
  have "failureMessage (GetImageBlob p) = ''failed to set output format''"
    and "failureMessage (SetImageFormat p' f) = ''failed to set output format''"
    by simp_all
  with handler_failed_call [of "GetImageBlob p" env req]
    handler_failed_call [of "SetImageFormat p' f" env req]
  show ?thesis
    by (simp only: errorResponse_def StatusInternalServerError_def) blast
qed

theorem serialization_failure_reported_as_format_failure_witness:
  "(GetImageBlob 0, False) \<in> set (snd (convertHandler (fakeEnv\<lparr>getImageBlob := \<lambda>w. None\<rparr>)
       \<lparr>reqQuery = Map.empty, reqBody = Some [3, 5]\<rparr>))
   \<and> fst (convertHandler (fakeEnv\<lparr>getImageBlob := \<lambda>w. None\<rparr>)
       \<lparr>reqQuery = Map.empty, reqBody = Some [3, 5]\<rparr>) =
     \<lparr>status = 500, payload = JSON [(''error'', ''failed to set output format'')]\<rparr>
   \<and> (SetImageFormat 0 ''JPEG'', False) \<in>
       set (snd (convertHandler (fakeEnv\<lparr>setImageFormat := \<lambda>w f. None\<rparr>)
         \<lparr>reqQuery = Map.empty, reqBody = Some [3, 5]\<rparr>))
   \<and> fst (convertHandler (fakeEnv\<lparr>setImageFormat := \<lambda>w f. None\<rparr>)
       \<lparr>reqQuery = Map.empty, reqBody = Some [3, 5]\<rparr>) =
     \<lparr>status = 500, payload = JSON [(''error'', ''failed to set output format'')]\<rparr>"
proof -
  let ?e1 = "fakeEnv\<lparr>getImageBlob := \<lambda>w. None\<rparr>"
  let ?e2 = "fakeEnv\<lparr>setImageFormat := \<lambda>w f. None\<rparr>"
  let ?req = "\<lparr>reqQuery = Map.empty, reqBody = Some [3, 5]\<rparr>"
  let ?cfg = "\<lparr>density = float_300, quality = 85, format = ''JPEG'', layout = ''KEEP''\<rparr>"
  have p1: "resolveParams ?e1 (reqQuery ?req) = Inr ?cfg"
    and p2: "resolveParams ?e2 (reqQuery ?req) = Inr ?cfg"
    by (simp_all add: resolveParams_def parseDensity_def parseQuality_def parseFormat_def
        parseLayout_def Get_def layoutTypeKeep_def)
  have blob: "(GetImageBlob 0, False) \<in> set (snd (convertHandler ?e1 ?req))"
    unfolding handler_resolved [OF p1]
    by (simp add: pipeline_def convertPage_def forceLayout_def Let_def fakeEnv_def
        layoutTypeLandscape_def layoutTypePortrait_def runDeferred_def)
  have fmt: "(SetImageFormat 0 ''JPEG'', False) \<in> set (snd (convertHandler ?e2 ?req))"
    unfolding handler_resolved [OF p2]
    by (simp add: pipeline_def convertPage_def Let_def fakeEnv_def runDeferred_def)
  from serialization_failure_reported_as_format_failure [of 0 ?e1 ?req 0 "''JPEG''"]
    serialization_failure_reported_as_format_failure [of 0 ?e2 ?req 0 "''JPEG''"]
    blob fmt
  show ?thesis
    by blast
qed

end
